theory Spec2Isabelle
  imports Main
begin

section \<open>The chiyo HTTP router: a shallow embedding of chiyo.go\<close>

text \<open>
  The router of \<^verbatim>\<open>chiyo.go\<close> keeps a static route table, one trie of path segments per
  method, a list of global middleware and a not-found handler. Registration mutates the
  router in place; the model passes the router explicitly and returns the new one. A Go
  panic (an index out of range, a call through a nil function value or a nil pointer) is
  the left summand of the result.

  The source file holds two revisions of the router. The model follows the later one, in
  which a node records the name of its parameter, the search returns the parameters it
  bound and \<^verbatim>\<open>ServeHTTP\<close> attaches them to the request. \<^verbatim>\<open>Group.AddRoute\<close> is the same in
  both.
\<close>

subsection \<open>Strings\<close>

text \<open>
  Go strings are byte sequences. \<^verbatim>\<open>strings.Trim(s, "/")\<close> removes every leading and
  trailing slash; \<^verbatim>\<open>strings.Split(s, "/")\<close> cuts at every slash and returns one element
  more than there are slashes, so the empty string gives one empty segment.
\<close>

definition slash :: char where
  "slash = CHR ''/''"

definition TrimLeft :: "string \<Rightarrow> string" where
  "TrimLeft s = dropWhile (\<lambda>c. c = slash) s"

definition TrimRight :: "string \<Rightarrow> string" where
  "TrimRight s = rev (dropWhile (\<lambda>c. c = slash) (rev s))"

definition Trim :: "string \<Rightarrow> string" where
  "Trim s = TrimRight (TrimLeft s)"

fun Split :: "string \<Rightarrow> string list" where
  "Split [] = [[]]"
| "Split (c # cs) =
     (if c = slash then [] # Split cs
      else (case Split cs of [] \<Rightarrow> [[c]] | p # ps \<Rightarrow> (c # p) # ps))"

text \<open>
  \<^verbatim>\<open>strings.Contains\<close> is only called with the one-byte strings \<^verbatim>\<open>":"\<close> and \<^verbatim>\<open>"*"\<close>, so it
  takes the byte.
\<close>

definition Contains :: "string \<Rightarrow> char \<Rightarrow> bool" where
  "Contains s c = (c \<in> set s)"

definition HasPrefix :: "string \<Rightarrow> string \<Rightarrow> bool" where
  "HasPrefix s p = (take (length p) s = p)"

definition TrimPrefix :: "string \<Rightarrow> string \<Rightarrow> string" where
  "TrimPrefix s p = (if HasPrefix s p then drop (length p) s else s)"

subsection \<open>Requests, handlers and middleware\<close>

text \<open>
  A request carries its method, the path of its URL and a context, which maps a key to the
  value stored under it. The only value the router stores is the parameter mapping, a Go
  map that may be nil (\<open>None\<close>).
\<close>

type_synonym Params = "(string \<rightharpoonup> string) option"

record Request =
  Method :: string
  URL_Path :: string
  Context :: "string \<rightharpoonup> Params"

definition WithValue :: "Request \<Rightarrow> string \<Rightarrow> Params \<Rightarrow> Request" where
  "WithValue req key val = req\<lparr>Context := (Context req)(key \<mapsto> val)\<rparr>"

datatype panic = IndexOutOfRange | NilDereference

text \<open>
  A handler works on the response writer, and on whatever else it can reach: the type
  \<open>'w\<close> stands for all of it. A \<^verbatim>\<open>http.HandlerFunc\<close> is a function value that may be nil;
  calling nil panics. A handler body may itself panic. Middleware is a function from
  handlers to handlers; applying it is taken to return and to do nothing but return the
  wrapped handler.
\<close>

type_synonym 'w HandlerFunc = "('w \<Rightarrow> Request \<Rightarrow> panic + 'w) option"

type_synonym 'w Middleware = "'w HandlerFunc \<Rightarrow> 'w HandlerFunc"

definition call :: "'w HandlerFunc \<Rightarrow> 'w \<Rightarrow> Request \<Rightarrow> panic + 'w" where
  "call h w req = (case h of None \<Rightarrow> Inl NilDereference | Some f \<Rightarrow> f w req)"

subsection \<open>The data model\<close>

text \<open>
  A trie node owns its children, so the pointers of the Go struct form a tree, and the
  map of children is a partial function from the segment key to the child.
\<close>

datatype 'w node = Node
  (children: "string \<Rightarrow> 'w node option")
  (handler: "'w HandlerFunc")
  (isParam: bool)
  (isWillcard: bool)
  (paramName: string)

record 'w Router =
  staticRoutes :: "string \<rightharpoonup> 'w HandlerFunc"
  dynamicRoutes :: "string \<rightharpoonup> 'w node"
  middleware :: "'w Middleware list"
  notFound :: "'w HandlerFunc"

text \<open>
  A group holds its prefix, its own middleware and a pointer to its router. The pointer is
  modelled by passing the router to the group's operations.
\<close>

record 'w Group =
  prefix :: string
  group_middleware :: "'w Middleware list"

subsection \<open>Construction and middleware registration\<close>

text \<open>
  \<^verbatim>\<open>NewRouter\<close> installs \<^verbatim>\<open>http.NotFound\<close> of the standard library as the fallback; it is
  the parameter \<open>http_NotFound\<close> here.
\<close>

definition NewRouter :: "('w \<Rightarrow> Request \<Rightarrow> panic + 'w) \<Rightarrow> 'w Router" where
  "NewRouter http_NotFound =
     \<lparr>staticRoutes = Map.empty, dynamicRoutes = Map.empty, middleware = [],
      notFound = Some http_NotFound\<rparr>"

definition Router_Group :: "'w Router \<Rightarrow> string \<Rightarrow> 'w Group" where
  "Router_Group r pre = \<lparr>prefix = Trim pre, group_middleware = []\<rparr>"

definition Router_Use :: "'w Router \<Rightarrow> 'w Middleware \<Rightarrow> 'w Router" where
  "Router_Use r mw = r\<lparr>middleware := middleware r @ [mw]\<rparr>"

definition Group_Use :: "'w Group \<Rightarrow> 'w Middleware \<Rightarrow> 'w Group" where
  "Group_Use g mw = g\<lparr>group_middleware := group_middleware g @ [mw]\<rparr>"

subsection \<open>The wrapping loop\<close>

text \<open>
  Both \<^verbatim>\<open>serveWithMiddleware\<close> and \<^verbatim>\<open>Group.AddRoute\<close> run
  \<^verbatim>\<open>for i := start; i >= 0; i-- { handler = mws[i](handler) }\<close>; they differ in the start.
  Indexing a slice outside its length panics.
\<close>

function wrapLoop :: "'w Middleware list \<Rightarrow> int \<Rightarrow> 'w HandlerFunc \<Rightarrow> panic + 'w HandlerFunc" where
  "wrapLoop mws i h =
     (if i \<ge> 0 then
        (if nat i < length mws then wrapLoop mws (i - 1) ((mws ! nat i) h)
         else Inl IndexOutOfRange)
      else Inr h)"
  by pat_completeness auto
termination
  by (relation "measure (\<lambda>(mws, i, h). nat (i + 1))") auto

declare wrapLoop.simps [simp del]

subsection \<open>Registration\<close>

text \<open>
  The loop of \<^verbatim>\<open>insertDynamicRoute\<close> walks down from the root, creating the child for a
  key when it is absent, and sets the handler of the node it ends on.
\<close>

definition newNode :: "bool \<Rightarrow> bool \<Rightarrow> string \<Rightarrow> 'w node" where
  "newNode isP isW pname = Node Map.empty None isP isW pname"

fun insertLoop :: "'w node \<Rightarrow> string list \<Rightarrow> 'w HandlerFunc \<Rightarrow> 'w node" where
  "insertLoop current [] h =
     Node (children current) h (isParam current) (isWillcard current) (paramName current)"
| "insertLoop current (part # parts) h =
     (let (key, isP, isW, pname) =
            (if HasPrefix part '':'' then ('':param'', True, False, TrimPrefix part '':'')
             else if HasPrefix part ''*'' then (''*'', False, True, [])
             else (part, False, False, []));
          child = (case children current key of
                     None \<Rightarrow> newNode isP isW pname
                   | Some c \<Rightarrow> c)
      in Node ((children current)(key \<mapsto> insertLoop child parts h))
           (handler current) (isParam current) (isWillcard current) (paramName current))"

definition insertDynamicRoute ::
  "'w Router \<Rightarrow> string \<Rightarrow> string list \<Rightarrow> 'w HandlerFunc \<Rightarrow> panic + 'w Router" where
  "insertDynamicRoute r method parts h =
     (case dynamicRoutes r method of
        None \<Rightarrow> Inl NilDereference
      | Some current \<Rightarrow>
          Inr (r\<lparr>dynamicRoutes := (dynamicRoutes r)(method \<mapsto> insertLoop current parts h)\<rparr>))"

definition Router_AddRoute ::
  "'w Router \<Rightarrow> string \<Rightarrow> string \<Rightarrow> 'w HandlerFunc \<Rightarrow> panic + 'w Router" where
  "Router_AddRoute r method path0 h =
     (let path = Trim path0; parts = Split path in
      if Contains path CHR '':'' \<or> Contains path CHR ''*'' then
        (let r1 = (case dynamicRoutes r method of
                     None \<Rightarrow> r\<lparr>dynamicRoutes := (dynamicRoutes r)(method \<mapsto> newNode False False [])\<rparr>
                   | Some _ \<Rightarrow> r)
         in insertDynamicRoute r1 method parts h)
      else Inr (r\<lparr>staticRoutes := (staticRoutes r)(method @ '' '' @ path \<mapsto> h)\<rparr>))"

definition Group_AddRoute ::
  "'w Group \<Rightarrow> 'w Router \<Rightarrow> string \<Rightarrow> string \<Rightarrow> 'w HandlerFunc \<Rightarrow> panic + 'w Router" where
  "Group_AddRoute g r method path h =
     (let fullPath = prefix g @ ''/'' @ Trim path in
      case wrapLoop (group_middleware g) (int (length (group_middleware g))) h of
        Inl e \<Rightarrow> Inl e
      | Inr wrappedHandler \<Rightarrow> Router_AddRoute r method fullPath wrappedHandler)"

subsection \<open>Dispatch\<close>

text \<open>
  The loop of \<^verbatim>\<open>searchDynamicRoute\<close> takes, for each segment, the child keyed by the segment,
  else the parameter child, binding the segment under the child's name when the name is
  not empty, else returns the handler of the wildcard child at once, else returns nil for
  both results. When the segments are used up it returns the handler of the node it is
  on, which may be nil, and the parameters.
\<close>

fun searchLoop ::
  "'w node \<Rightarrow> string list \<Rightarrow> (string \<rightharpoonup> string) \<Rightarrow> 'w HandlerFunc \<times> Params" where
  "searchLoop current [] params = (handler current, Some params)"
| "searchLoop current (part # parts) params =
     (case children current part of
        Some child \<Rightarrow> searchLoop child parts params
      | None \<Rightarrow>
          (case children current '':param'' of
             Some paramChild \<Rightarrow>
               searchLoop paramChild parts
                 (if paramName paramChild \<noteq> [] then params(paramName paramChild \<mapsto> part)
                  else params)
           | None \<Rightarrow>
               (case children current ''*'' of
                  Some wildcardChild \<Rightarrow> (handler wildcardChild, Some params)
                | None \<Rightarrow> (None, None))))"

definition searchDynamicRoute :: "'w node \<Rightarrow> string \<Rightarrow> 'w HandlerFunc \<times> Params" where
  "searchDynamicRoute root path = searchLoop root (Split path) Map.empty"

text \<open>
  \<^verbatim>\<open>serveWithMiddleware\<close> wraps the handler in the router's middleware, from the last
  registered to the first, and calls the result. \<^verbatim>\<open>ServeHTTP\<close> looks the request up in the
  static table, then in the trie of its method, and calls the fallback when neither gives
  a handler.
\<close>

definition serveWithMiddleware ::
  "'w Router \<Rightarrow> 'w HandlerFunc \<Rightarrow> 'w \<Rightarrow> Request \<Rightarrow> panic + 'w" where
  "serveWithMiddleware r h w req =
     (if length (middleware r) = 0 then call h w req
      else (case wrapLoop (middleware r) (int (length (middleware r)) - 1) h of
              Inl e \<Rightarrow> Inl e
            | Inr h' \<Rightarrow> call h' w req))"

definition ServeHTTP :: "'w Router \<Rightarrow> 'w \<Rightarrow> Request \<Rightarrow> panic + 'w" where
  "ServeHTTP r w req =
     (let path = Trim (URL_Path req); method = Method req; fullPath = method @ '' '' @ path in
      case staticRoutes r fullPath of
        Some h \<Rightarrow> serveWithMiddleware r h w req
      | None \<Rightarrow>
          (case dynamicRoutes r method of
             None \<Rightarrow> call (notFound r) w req
           | Some root \<Rightarrow>
               (case searchDynamicRoute root path of
                  (None, _) \<Rightarrow> call (notFound r) w req
                | (Some f, params) \<Rightarrow>
                    serveWithMiddleware r (Some f) w (WithValue req ''params'' params))))"

text \<open>
  The part of \<^verbatim>\<open>ServeHTTP\<close> that decides which handler runs, without running it: the
  same lookups in the same order, returning what was found.
\<close>

datatype 'w selection = StaticHit "'w HandlerFunc" | DynamicHit "'w HandlerFunc" Params | Miss

definition selectRoute :: "'w Router \<Rightarrow> string \<Rightarrow> string \<Rightarrow> 'w selection" where
  "selectRoute r method url_path =
     (let path = Trim url_path; fullPath = method @ '' '' @ path in
      case staticRoutes r fullPath of
        Some h \<Rightarrow> StaticHit h
      | None \<Rightarrow>
          (case dynamicRoutes r method of
             None \<Rightarrow> Miss
           | Some root \<Rightarrow>
               (case searchDynamicRoute root path of
                  (None, _) \<Rightarrow> Miss
                | (Some f, params) \<Rightarrow> DynamicHit (Some f) params)))"

subsection \<open>Vocabulary of the properties\<close>

text \<open>
  Paths are written as lists of segments joined by slashes. A segment is non-empty and
  has no slash; a literal segment is one that registration does not read as a parameter
  or a wildcard.
\<close>

fun Join :: "string list \<Rightarrow> string" where
  "Join [] = []"
| "Join [p] = p"
| "Join (p # q # ps) = p @ slash # Join (q # ps)"

definition segment :: "string \<Rightarrow> bool" where
  "segment s = (s \<noteq> [] \<and> slash \<notin> set s)"

definition literal :: "string \<Rightarrow> bool" where
  "literal s = (segment s \<and> \<not> HasPrefix s '':'' \<and> \<not> HasPrefix s ''*'')"

text \<open>
  A middleware with logic before and after the handler it wraps: \<open>pre\<close> runs, then the
  wrapped handler, then \<open>post\<close>; a panic of the wrapped handler passes through.
\<close>

definition around :: "('w \<Rightarrow> 'w) \<Rightarrow> ('w \<Rightarrow> 'w) \<Rightarrow> 'w Middleware" where
  "around pre post next =
     Some (\<lambda>w req. case call next (pre w) req of Inl e \<Rightarrow> Inl e | Inr w' \<Rightarrow> Inr (post w'))"

text \<open>
  The node reached from \<open>n\<close> along literal segments, as insertion walks: the child for
  the segment, or the node insertion would create for it.
\<close>

fun descend :: "'w node \<Rightarrow> string list \<Rightarrow> 'w node" where
  "descend n [] = n"
| "descend n (l # ls) =
     descend (case children n l of None \<Rightarrow> newNode False False [] | Some c \<Rightarrow> c) ls"

text \<open>
  Handlers for concrete runs. The state is a log of strings: \<open>say s\<close> appends \<open>s\<close>, and
  \<open>show_param name\<close> appends what the request's context holds for the parameter.
\<close>

definition say :: "string \<Rightarrow> string list \<Rightarrow> Request \<Rightarrow> panic + string list" where
  "say s w req = Inr (w @ [s])"

definition show_param :: "string \<Rightarrow> string list \<Rightarrow> Request \<Rightarrow> panic + string list" where
  "show_param name w req =
     Inr (w @ [case Context req ''params'' of
                 Some (Some ps) \<Rightarrow>
                   (case ps name of Some v \<Rightarrow> name @ ''='' @ v | None \<Rightarrow> name @ '' unbound'')
               | _ \<Rightarrow> ''no params''])"

section \<open>Properties\<close>

subsection \<open>The wrapping loop\<close>

lemma wrapLoop_take:
  "k \<le> length mws \<Longrightarrow> wrapLoop mws (int k - 1) h = Inr (foldr (\<lambda>m k. m k) (take k mws) h)"
proof (induction k arbitrary: h)
  case 0
  show ?case by (simp add: wrapLoop.simps)
next
  case (Suc k)
  then have k: "k < length mws" by simp
  have "wrapLoop mws (int (Suc k) - 1) h = wrapLoop mws (int k - 1) ((mws ! k) h)"
    using k by (subst wrapLoop.simps) simp
  also have "\<dots> = Inr (foldr (\<lambda>m k. m k) (take k mws) ((mws ! k) h))"
    using Suc.IH k by simp
  finally show ?case using k by (simp add: take_Suc_conv_app_nth)
qed

lemma wrapLoop_all: "wrapLoop mws (int (length mws) - 1) h = Inr (foldr (\<lambda>m k. m k) mws h)"
  using wrapLoop_take [of "length mws" mws h] by simp

lemma wrapLoop_past_end: "wrapLoop mws (int (length mws)) h = Inl IndexOutOfRange"
  by (subst wrapLoop.simps) simp

lemma serveWithMiddleware_foldr:
  "serveWithMiddleware r h w req = call (foldr (\<lambda>m k. m k) (middleware r) h) w req"
  by (simp add: serveWithMiddleware_def wrapLoop_all)

lemma middleware_foldl_Use: "middleware (foldl Router_Use r ms) = middleware r @ ms"
  by (induction ms arbitrary: r) (simp_all add: Router_Use_def)

subsection \<open>Trimming, splitting and joining\<close>

lemma TrimLeft_slash: "TrimLeft (slash # s) = TrimLeft s"
  by (simp add: TrimLeft_def)

lemma TrimRight_slash: "TrimRight (s @ [slash]) = TrimRight s"
  by (simp add: TrimRight_def)

lemma TrimLeft_snoc_slash: "TrimLeft (s @ [slash]) = (if TrimLeft s = [] then [] else TrimLeft s @ [slash])"
  by (auto simp: TrimLeft_def dropWhile_append dropWhile_eq_Nil_conv)

lemma TrimRight_Nil: "TrimRight [] = []"
  by (simp add: TrimRight_def)

lemma Trim_leading: "Trim (slash # s) = Trim s"
  by (simp add: Trim_def TrimLeft_slash)

lemma Trim_trailing: "Trim (s @ [slash]) = Trim s"
  by (simp add: Trim_def TrimLeft_snoc_slash TrimRight_slash TrimRight_Nil)

lemma Trim_spellings:
  "Trim (''/'' @ q) = Trim q" "Trim (q @ ''/'') = Trim q" "Trim (''/'' @ q @ ''/'') = Trim q"
  using Trim_leading [of q] Trim_trailing [of q] Trim_trailing [of "slash # q"] Trim_leading [of "q @ [slash]"]
  by (simp_all add: slash_def)

lemma TrimLeft_id: "s \<noteq> [] \<Longrightarrow> hd s \<noteq> slash \<Longrightarrow> TrimLeft s = s"
  by (cases s) (auto simp: TrimLeft_def)

lemma TrimRight_id: "s \<noteq> [] \<Longrightarrow> last s \<noteq> slash \<Longrightarrow> TrimRight s = s"
  by (cases s rule: rev_cases) (auto simp: TrimRight_def)

lemma Trim_id: "s \<noteq> [] \<Longrightarrow> hd s \<noteq> slash \<Longrightarrow> last s \<noteq> slash \<Longrightarrow> Trim s = s"
  by (simp add: Trim_def TrimLeft_id TrimRight_id)

lemma Split_not_Nil: "Split s \<noteq> []"
  by (induction s) (auto split: list.splits)

lemma Split_no_slash: "slash \<notin> set s \<Longrightarrow> Split s = [s]"
  by (induction s) auto

lemma Split_append_slash: "slash \<notin> set p \<Longrightarrow> Split (p @ slash # s) = p # Split s"
  by (induction p) auto

lemma Split_Join: "parts \<noteq> [] \<Longrightarrow> list_all (\<lambda>p. slash \<notin> set p) parts \<Longrightarrow> Split (Join parts) = parts"
  by (induction parts rule: Join.induct) (auto simp: Split_no_slash Split_append_slash)

lemma set_Join: "c \<noteq> slash \<Longrightarrow> c \<in> set (Join parts) \<longleftrightarrow> (\<exists>p \<in> set parts. c \<in> set p)"
  by (induction parts rule: Join.induct) auto

lemma Join_Nil_iff: "list_all segment parts \<Longrightarrow> Join parts = [] \<longleftrightarrow> parts = []"
  by (induction parts rule: Join.induct) (auto simp: segment_def)

lemma hd_Join: "parts \<noteq> [] \<Longrightarrow> list_all segment parts \<Longrightarrow> hd (Join parts) = hd (hd parts)"
  by (induction parts rule: Join.induct) (auto simp: segment_def)

lemma last_Join: "parts \<noteq> [] \<Longrightarrow> list_all segment parts \<Longrightarrow> last (Join parts) = last (last parts)"
  by (induction parts rule: Join.induct) (auto simp: segment_def Join_Nil_iff)

lemma Trim_Join: 
  assumes "parts \<noteq> []" "list_all segment parts"
  shows "Trim (Join parts) = Join parts"
proof -
  have ne: "Join parts \<noteq> []" using assms by (simp add: Join_Nil_iff)
  have h: "hd parts \<in> set parts" "last parts \<in> set parts" using assms by auto
  then have sh: "segment (hd parts)" "segment (last parts)" using assms(2) by (auto simp: list_all_iff)
  have "hd (hd parts) \<in> set (hd parts)" "last (last parts) \<in> set (last parts)" using sh by (auto simp: segment_def)
  moreover have "slash \<notin> set (hd parts)" "slash \<notin> set (last parts)"
    using sh by (auto simp: segment_def)
  ultimately have "hd (hd parts) \<noteq> slash" "last (last parts) \<noteq> slash"
    by metis+
  then show ?thesis using ne assms by (simp add: Trim_id hd_Join last_Join)
qed

lemma segment_literal: "literal s \<Longrightarrow> segment s"
  by (simp add: literal_def)

lemma list_all_segment_literal: "list_all literal ls \<Longrightarrow> list_all segment ls"
  by (induction ls) (simp_all add: segment_literal)

lemma segment_colon: "segment name \<Longrightarrow> segment (CHR '':'' # name)"
  by (simp add: segment_def slash_def)

lemma Trim_slash_Join:
  "parts \<noteq> [] \<Longrightarrow> list_all segment parts \<Longrightarrow> Trim (slash # Join parts) = Join parts"
  by (simp add: Trim_leading Trim_Join)

lemma Split_Join_segments:
  "parts \<noteq> [] \<Longrightarrow> list_all segment parts \<Longrightarrow> Split (Join parts) = parts"
  by (rule Split_Join) (auto simp: list_all_iff segment_def)

lemma Contains_Join: "c \<noteq> slash \<Longrightarrow> Contains (Join parts) c \<longleftrightarrow> (\<exists>p \<in> set parts. c \<in> set p)"
  by (simp add: Contains_def set_Join)

lemma single_param_paths:
  assumes "list_all literal lits1" "list_all literal lits2" "segment s"
  shows "Trim (slash # Join (lits1 @ s # lits2)) = Join (lits1 @ s # lits2)"
    and "Split (Join (lits1 @ s # lits2)) = lits1 @ s # lits2"
proof -
  have segs: "list_all segment (lits1 @ s # lits2)"
    using assms by (simp add: list_all_segment_literal)
  show "Trim (slash # Join (lits1 @ s # lits2)) = Join (lits1 @ s # lits2)"
    using segs by (simp add: Trim_slash_Join)
  show "Split (Join (lits1 @ s # lits2)) = lits1 @ s # lits2"
    using segs by (simp add: Split_Join_segments)
qed

subsection \<open>Insertion into the trie and search\<close>

lemma insertLoop_literal:
  "\<not> HasPrefix part '':'' \<Longrightarrow> \<not> HasPrefix part ''*'' \<Longrightarrow>
   insertLoop n (part # parts) h =
     Node ((children n)(part \<mapsto>
             insertLoop (case children n part of None \<Rightarrow> newNode False False [] | Some c \<Rightarrow> c) parts h))
       (handler n) (isParam n) (isWillcard n) (paramName n)"
  by simp

lemma insertLoop_param:
  "HasPrefix part '':'' \<Longrightarrow>
   insertLoop n (part # parts) h =
     Node ((children n)('':param'' \<mapsto>
             insertLoop (case children n '':param'' of
                           None \<Rightarrow> newNode True False (TrimPrefix part '':'') | Some c \<Rightarrow> c) parts h))
       (handler n) (isParam n) (isWillcard n) (paramName n)"
  by simp

lemma insertLoop_wildcard:
  "\<not> HasPrefix part '':'' \<Longrightarrow> HasPrefix part ''*'' \<Longrightarrow>
   insertLoop n (part # parts) h =
     Node ((children n)(''*'' \<mapsto>
             insertLoop (case children n ''*'' of None \<Rightarrow> newNode False True [] | Some c \<Rightarrow> c) parts h))
       (handler n) (isParam n) (isWillcard n) (paramName n)"
  by simp

lemma insertLoop_twice: "insertLoop (insertLoop n parts h1) parts h2 = insertLoop n parts h2"
proof (induction parts arbitrary: n)
  case Nil
  show ?case by simp
next
  case (Cons part parts)
  consider (p) "HasPrefix part '':''" | (w) "\<not> HasPrefix part '':''" "HasPrefix part ''*''"
    | (l) "\<not> HasPrefix part '':''" "\<not> HasPrefix part ''*''" by blast
  then show ?case
  proof cases
    case p
    show ?thesis by (simp add: insertLoop_param [OF p] Cons.IH del: insertLoop.simps)
  next
    case w
    show ?thesis by (simp add: insertLoop_wildcard [OF w] Cons.IH del: insertLoop.simps)
  next
    case l
    show ?thesis by (simp add: insertLoop_literal [OF l] Cons.IH del: insertLoop.simps)
  qed
qed

lemma paramName_insertLoop: "paramName (insertLoop n parts h) = paramName n"
  by (cases parts) (simp_all add: Let_def split: prod.splits)

lemma handler_insertLoop_Cons: "handler (insertLoop n (p # parts) h) = handler n"
  by (simp add: Let_def split: prod.splits)

lemma literal_prefix:
  "literal l \<Longrightarrow> \<not> HasPrefix l '':''" "literal l \<Longrightarrow> \<not> HasPrefix l ''*''"
  by (simp_all add: literal_def)

lemma HasPrefix_colon: "HasPrefix (CHR '':'' # name) '':''" "TrimPrefix (CHR '':'' # name) '':'' = name"
  by (simp_all add: HasPrefix_def TrimPrefix_def)

lemma search_insert_literals:
  "list_all literal lits \<Longrightarrow>
   searchLoop (insertLoop n (lits @ rest) h) (lits @ segs) ps =
   searchLoop (insertLoop (descend n lits) rest h) segs ps"
proof (induction lits arbitrary: n)
  case Nil
  show ?case by simp
next
  case (Cons l lits)
  then have l: "\<not> HasPrefix l '':''" "\<not> HasPrefix l ''*''" and ls: "list_all literal lits"
    by (simp_all add: literal_prefix)
  show ?case
    using Cons.IH [OF ls] by (simp add: insertLoop_literal [OF l] del: insertLoop.simps)
qed

lemma search_insert2_literals:
  "list_all literal lits \<Longrightarrow>
   searchLoop (insertLoop (insertLoop n (lits @ r1) h1) (lits @ r2) h2) (lits @ segs) ps =
   searchLoop (insertLoop (insertLoop (descend n lits) r1 h1) r2 h2) segs ps"
proof (induction lits arbitrary: n)
  case Nil
  show ?case by simp
next
  case (Cons l lits)
  then have l: "\<not> HasPrefix l '':''" "\<not> HasPrefix l ''*''" and ls: "list_all literal lits"
    by (simp_all add: literal_prefix)
  show ?case
    using Cons.IH [OF ls] by (simp add: insertLoop_literal [OF l] del: insertLoop.simps)
qed

lemma descend_insert_literals:
  "list_all literal lits \<Longrightarrow>
   descend (insertLoop n (lits @ rest) h) lits = insertLoop (descend n lits) rest h"
proof (induction lits arbitrary: n)
  case Nil
  show ?case by simp
next
  case (Cons l lits)
  then have l: "\<not> HasPrefix l '':''" "\<not> HasPrefix l ''*''" and ls: "list_all literal lits"
    by (simp_all add: literal_prefix)
  show ?case
    using Cons.IH [OF ls] by (simp add: insertLoop_literal [OF l] del: insertLoop.simps)
qed

lemma children_descend_fresh: "children n = Map.empty \<Longrightarrow> children (descend n lits) = Map.empty"
  by (induction lits arbitrary: n) (simp_all add: newNode_def)

lemma handler_descend_fresh: "children n = Map.empty \<Longrightarrow> handler n = None \<Longrightarrow> handler (descend n lits) = None"
  by (induction lits arbitrary: n) (simp_all add: newNode_def)

lemma search_insert_param:
  assumes "children n = Map.empty" "v \<noteq> '':param''" "name \<noteq> []"
  shows "searchLoop (insertLoop n ((CHR '':'' # name) # rest) h) (v # segs) ps =
         searchLoop (insertLoop (newNode True False name) rest h) segs (ps(name \<mapsto> v))"
  using assms
  by (simp add: insertLoop_param [OF HasPrefix_colon(1)] HasPrefix_colon(2) paramName_insertLoop
      newNode_def del: insertLoop.simps)

lemma search_single_param:
  assumes "children n = Map.empty" "list_all literal lits1" "list_all literal lits2"
    "v \<noteq> '':param''" "name \<noteq> []"
  shows "searchLoop (insertLoop n (lits1 @ (CHR '':'' # name) # lits2) h) (lits1 @ v # lits2) ps =
         (h, Some (ps(name \<mapsto> v)))"
proof -
  have "searchLoop (insertLoop n (lits1 @ (CHR '':'' # name) # lits2) h) (lits1 @ v # lits2) ps =
        searchLoop (insertLoop (descend n lits1) ((CHR '':'' # name) # lits2) h) (v # lits2) ps"
    by (rule search_insert_literals [OF assms(2)])
  also have "\<dots> = searchLoop (insertLoop (newNode True False name) lits2 h) lits2 (ps(name \<mapsto> v))"
    by (rule search_insert_param [OF children_descend_fresh [OF assms(1)] assms(4,5)])
  also have "\<dots> = searchLoop (insertLoop (descend (newNode True False name) lits2) [] h) [] (ps(name \<mapsto> v))"
    using search_insert_literals [OF assms(3), of "newNode True False name" "[]" h "[]"] by simp
  also have "\<dots> = (h, Some (ps(name \<mapsto> v)))"
    by simp
  finally show ?thesis .
qed

lemma search_intermediate:
  assumes "children n = Map.empty" "handler n = None" "list_all literal lits"
  shows "searchLoop (insertLoop n (lits @ [p]) h) lits ps = (None, Some ps)"
proof -
  have "searchLoop (insertLoop n (lits @ [p]) h) (lits @ []) ps =
        searchLoop (insertLoop (descend n lits) [p] h) [] ps"
    by (rule search_insert_literals [OF assms(3)])
  also have "\<dots> = (handler (descend n lits), Some ps)"
    by (simp only: searchLoop.simps handler_insertLoop_Cons)
  finally show ?thesis
    by (simp add: handler_descend_fresh [OF assms(1,2)])
qed

lemma insert_param_twice:
  assumes "children n = Map.empty"
  shows "children (insertLoop (insertLoop n [CHR '':'' # x] h1) [CHR '':'' # y] h2) '':param''
         = Some (Node Map.empty h2 True False x)"
  using assms
  by (simp add: insertLoop_param [OF HasPrefix_colon(1)] HasPrefix_colon(2) newNode_def
      del: insertLoop.simps(2))

lemma search_param_node:
  assumes "children n v = None" "children n '':param'' = Some pn" "paramName pn \<noteq> []"
  shows "searchLoop n [v] ps = (handler pn, Some (ps(paramName pn \<mapsto> v)))"
  using assms by simp

subsection \<open>Registration and dispatch\<close>

lemma Router_AddRoute_dynamic:
  "Contains (Trim p) CHR '':'' \<or> Contains (Trim p) CHR ''*'' \<Longrightarrow>
   Router_AddRoute r m p h =
     Inr (r\<lparr>dynamicRoutes := (dynamicRoutes r)(m \<mapsto>
            insertLoop (case dynamicRoutes r m of None \<Rightarrow> newNode False False [] | Some n \<Rightarrow> n)
              (Split (Trim p)) h)\<rparr>)"
  by (auto simp: Router_AddRoute_def insertDynamicRoute_def Let_def split: option.splits)

lemma Router_AddRoute_static:
  "\<not> Contains (Trim p) CHR '':'' \<Longrightarrow> \<not> Contains (Trim p) CHR ''*'' \<Longrightarrow>
   Router_AddRoute r m p h = Inr (r\<lparr>staticRoutes := (staticRoutes r)(m @ '' '' @ Trim p \<mapsto> h)\<rparr>)"
  by (simp add: Router_AddRoute_def Let_def)

lemma Router_AddRoute_total: "\<exists>r'. Router_AddRoute r m p h = Inr r'"
  by (cases "Contains (Trim p) CHR '':'' \<or> Contains (Trim p) CHR ''*''")
     (auto simp: Router_AddRoute_dynamic Router_AddRoute_static)

lemma Router_AddRoute_middleware: "Router_AddRoute r m p h = Inr r' \<Longrightarrow> middleware r' = middleware r"
  by (cases "Contains (Trim p) CHR '':'' \<or> Contains (Trim p) CHR ''*''")
     (auto simp: Router_AddRoute_dynamic Router_AddRoute_static)

lemma Router_AddRoute_notFound: "Router_AddRoute r m p h = Inr r' \<Longrightarrow> notFound r' = notFound r"
  by (cases "Contains (Trim p) CHR '':'' \<or> Contains (Trim p) CHR ''*''")
     (auto simp: Router_AddRoute_dynamic Router_AddRoute_static)

lemma Router_Use_notFound: "notFound (Router_Use r mw) = notFound r"
  by (simp add: Router_Use_def)

lemma Router_AddRoute_dynamic_static:
  "Contains (Trim p) CHR '':'' \<or> Contains (Trim p) CHR ''*'' \<Longrightarrow>
   Router_AddRoute r m p h = Inr r' \<Longrightarrow> staticRoutes r' = staticRoutes r"
  by (auto simp: Router_AddRoute_dynamic)

lemma Router_AddRoute_Trim:
  "Trim p = Trim q \<Longrightarrow> Router_AddRoute r m p h = Router_AddRoute r m q h"
  by (simp add: Router_AddRoute_def)

lemma Router_AddRoute_twice:
  "\<exists>r1 r2. Router_AddRoute r m p h1 = Inr r1 \<and> Router_AddRoute r1 m p h2 = Inr r2
     \<and> Router_AddRoute r m p h2 = Inr r2"
proof (cases "Contains (Trim p) CHR '':'' \<or> Contains (Trim p) CHR ''*''")
  case True
  show ?thesis
    by (simp add: Router_AddRoute_dynamic [OF True] insertLoop_twice del: insertLoop.simps)
next
  case False
  then have st: "\<not> Contains (Trim p) CHR '':''" "\<not> Contains (Trim p) CHR ''*''" by simp_all
  show ?thesis
    by (simp add: Router_AddRoute_static [OF st])
qed

lemma selectRoute_Trim: "Trim p = Trim q \<Longrightarrow> selectRoute r m p = selectRoute r m q"
  by (simp add: selectRoute_def)

lemma ServeHTTP_static_hit:
  "staticRoutes r (Method req @ '' '' @ Trim (URL_Path req)) = Some h \<Longrightarrow>
   ServeHTTP r w req = serveWithMiddleware r h w req"
  by (simp add: ServeHTTP_def Let_def)

lemma ServeHTTP_dynamic_hit:
  "staticRoutes r (Method req @ '' '' @ Trim (URL_Path req)) = None \<Longrightarrow>
   dynamicRoutes r (Method req) = Some root \<Longrightarrow>
   searchLoop root (Split (Trim (URL_Path req))) Map.empty = (Some f, ps) \<Longrightarrow>
   ServeHTTP r w req = serveWithMiddleware r (Some f) w (WithValue req ''params'' ps)"
  by (simp add: ServeHTTP_def Let_def searchDynamicRoute_def)

lemma ServeHTTP_miss:
  "staticRoutes r (Method req @ '' '' @ Trim (URL_Path req)) = None \<Longrightarrow>
   (case dynamicRoutes r (Method req) of
      None \<Rightarrow> True
    | Some root \<Rightarrow> fst (searchDynamicRoute root (Trim (URL_Path req))) = None) \<Longrightarrow>
   ServeHTTP r w req = call (notFound r) w req"
  by (auto simp: ServeHTTP_def Let_def split: option.splits prod.splits)

lemma ServeHTTP_selectRoute:
  "ServeHTTP r w req =
     (case selectRoute r (Method req) (URL_Path req) of
        StaticHit h \<Rightarrow> serveWithMiddleware r h w req
      | DynamicHit h ps \<Rightarrow> serveWithMiddleware r h w (WithValue req ''params'' ps)
      | Miss \<Rightarrow> call (notFound r) w req)"
  by (simp add: ServeHTTP_def selectRoute_def Let_def split: option.splits prod.splits)

lemma single_param_add:
  assumes "list_all literal lits1" "list_all literal lits2" "segment name"
  shows "Router_AddRoute r m (slash # Join (lits1 @ (CHR '':'' # name) # lits2)) h =
     Inr (r\<lparr>dynamicRoutes := (dynamicRoutes r)(m \<mapsto>
            insertLoop (case dynamicRoutes r m of None \<Rightarrow> newNode False False [] | Some n \<Rightarrow> n)
              (lits1 @ (CHR '':'' # name) # lits2) h)\<rparr>)"
proof -
  let ?parts = "lits1 @ (CHR '':'' # name) # lits2"
  note p = single_param_paths [OF assms(1,2) segment_colon [OF assms(3)]]
  have dyn: "Contains (Trim (slash # Join ?parts)) CHR '':'' \<or> Contains (Trim (slash # Join ?parts)) CHR ''*''"
    unfolding p by (simp add: Contains_Join slash_def)
  show ?thesis
    unfolding Router_AddRoute_dynamic [OF dyn] p ..
qed

lemma single_param_dispatch:
  assumes lits: "list_all literal lits1" "list_all literal lits2"
    and name: "segment name"
    and v: "segment v" "v \<noteq> '':param''"
    and static: "staticRoutes r (m @ '' '' @ Join (lits1 @ v # lits2)) = None"
    and req: "Method req = m" "URL_Path req = slash # Join (lits1 @ v # lits2)"
    and r': "r' = r\<lparr>dynamicRoutes := (dynamicRoutes r)(m \<mapsto>
            insertLoop (newNode False False []) (lits1 @ (CHR '':'' # name) # lits2) (Some f))\<rparr>"
  shows "ServeHTTP r' w req =
           serveWithMiddleware r' (Some f) w
             (req\<lparr>Context := (Context req)(''params'' \<mapsto> Some [name \<mapsto> v])\<rparr>)"
proof -
  note p = single_param_paths [OF lits v(1)]
  have s: "staticRoutes r' (Method req @ '' '' @ Trim (URL_Path req)) = None"
    unfolding req p using static by (simp add: r')
  have d: "dynamicRoutes r' (Method req) =
      Some (insertLoop (newNode False False []) (lits1 @ (CHR '':'' # name) # lits2) (Some f))"
    by (simp add: r' req)
  have f: "searchLoop (insertLoop (newNode False False []) (lits1 @ (CHR '':'' # name) # lits2) (Some f))
             (Split (Trim (URL_Path req))) Map.empty = (Some f, Some [name \<mapsto> v])"
    unfolding req p using lits v name
    by (intro search_single_param) (simp_all add: newNode_def segment_def)
  have "ServeHTTP r' w req = serveWithMiddleware r' (Some f) w (WithValue req ''params'' (Some [name \<mapsto> v]))"
    using s d f by (rule ServeHTTP_dynamic_hit)
  then show ?thesis by (simp only: WithValue_def)
qed

subsection \<open>The routes of the examples\<close>

lemma Trim_users_me: "Trim ''/users/me'' = ''users/me''"
  by (simp add: Trim_def TrimLeft_def TrimRight_def slash_def)

lemma Trim_users_id: "Trim ''/users/:id'' = ''users/:id''"
  by (simp add: Trim_def TrimLeft_def TrimRight_def slash_def)

lemma users_me_static:
  "\<not> Contains (Trim ''/users/me'') CHR '':''" "\<not> Contains (Trim ''/users/me'') CHR ''*''"
  by (simp_all add: Trim_users_me Contains_def)

lemma users_id_dynamic:
  "Contains (Trim ''/users/:id'') CHR '':'' \<or> Contains (Trim ''/users/:id'') CHR ''*''"
  by (simp add: Trim_users_id Contains_def)

lemma add_users_id_wild:
  "Router_AddRoute r m ''/users/:id/*'' h
      = Inr (r\<lparr>dynamicRoutes := (dynamicRoutes r)(m \<mapsto>
            insertLoop (case dynamicRoutes r m of None \<Rightarrow> newNode False False [] | Some n \<Rightarrow> n)
              [''users'', '':id'', ''*''] h)\<rparr>)"
  by (subst Router_AddRoute_dynamic)
     (simp_all add: Trim_def TrimLeft_def TrimRight_def Contains_def slash_def
        del: insertLoop.simps)

lemma add_users_me_wild:
  "Router_AddRoute r m ''/users/me/*'' h
      = Inr (r\<lparr>dynamicRoutes := (dynamicRoutes r)(m \<mapsto>
            insertLoop (case dynamicRoutes r m of None \<Rightarrow> newNode False False [] | Some n \<Rightarrow> n)
              [''users'', ''me'', ''*''] h)\<rparr>)"
  by (subst Router_AddRoute_dynamic)
     (simp_all add: Trim_def TrimLeft_def TrimRight_def Contains_def slash_def
        del: insertLoop.simps)

lemma search_users_me_wild:
  "searchLoop (insertLoop (insertLoop (newNode False False []) [''users'', '':id'', ''*''] h2)
      [''users'', ''me'', ''*''] h1) [''users'', ''me'', v] ps = (h1, Some ps)"
  "searchLoop (insertLoop (insertLoop (newNode False False []) [''users'', ''me'', ''*''] h1)
      [''users'', '':id'', ''*''] h2) [''users'', ''me'', v] ps = (h1, Some ps)"
  by (cases "v = ''*''"; simp add: newNode_def HasPrefix_def TrimPrefix_def)+

lemma path_users_me:
  assumes "segment v"
  shows "Trim (''/users/me/'' @ v) = ''users/me/'' @ v"
    and "Split (''users/me/'' @ v) = [''users'', ''me'', v]"
proof -
  have eq: "''/users/me/'' @ v = slash # Join [''users'', ''me'', v]"
    and eq': "''users/me/'' @ v = Join [''users'', ''me'', v]"
    by (simp_all add: slash_def)
  have segs: "list_all segment [''users'', ''me'', v]"
    using assms by (simp add: segment_def slash_def)
  show "Trim (''/users/me/'' @ v) = ''users/me/'' @ v"
    unfolding eq eq' by (rule Trim_slash_Join, simp, rule segs)
  show "Split (''users/me/'' @ v) = [''users'', ''me'', v]"
    unfolding eq' by (rule Split_Join_segments, simp, rule segs)
qed

lemma users_me_wild_dispatch:
  assumes v: "segment v"
    and static: "staticRoutes r (m @ '' users/me/'' @ v) = None"
    and req: "Method req = m" "URL_Path req = ''/users/me/'' @ v"
    and trie: "dynamicRoutes r m = Some t"
    and found: "searchLoop t [''users'', ''me'', v] Map.empty = (Some f, Some Map.empty)"
  shows "ServeHTTP r w req =
           serveWithMiddleware r (Some f) w
             (req\<lparr>Context := (Context req)(''params'' \<mapsto> Some Map.empty)\<rparr>)"
proof -
  have s: "staticRoutes r (Method req @ '' '' @ Trim (URL_Path req)) = None"
    unfolding req path_users_me(1) [OF v] using static by simp
  have d: "dynamicRoutes r (Method req) = Some t"
    using trie by (simp add: req)
  have f: "searchLoop t (Split (Trim (URL_Path req))) Map.empty = (Some f, Some Map.empty)"
    unfolding req path_users_me [OF v] by (rule found)
  have "ServeHTTP r w req = serveWithMiddleware r (Some f) w (WithValue req ''params'' (Some Map.empty))"
    using s d f by (rule ServeHTTP_dynamic_hit)
  then show ?thesis by (simp only: WithValue_def)
qed

lemma add_files_wild:
  "dynamicRoutes r m = None \<Longrightarrow>
   Router_AddRoute r m ''/files/*'' h
      = Inr (r\<lparr>dynamicRoutes := (dynamicRoutes r)(m \<mapsto>
            insertLoop (newNode False False []) [''files'', ''*''] h)\<rparr>)"
  by (simp add: Router_AddRoute_def insertDynamicRoute_def Let_def Trim_def TrimLeft_def TrimRight_def
      Contains_def slash_def del: insertLoop.simps)

lemma search_files_wild:
  "a \<noteq> ''*'' \<Longrightarrow>
   searchLoop (insertLoop (newNode False False []) [''files'', ''*''] h) (''files'' # a # segs) ps
     = (h, Some ps)"
  by (simp add: newNode_def HasPrefix_def)

section \<open>The claims\<close>

subsection \<open>C1: registration through a group\<close>

text \<open>
  C1. The claim: \<^verbatim>\<open>Group.AddRoute(method, path, handler)\<close> registers with the parent router
  the trimmed prefix joined to the trimmed path, with the handler wrapped by the group's
  middleware, first-registered outermost, so that the route is reachable at the prefixed
  path.

  The code does not do this. The loop of \<^verbatim>\<open>Group.AddRoute\<close> starts at
  \<^verbatim>\<open>i := len(g.middleware)\<close>, one past the last index, where the loop of
  \<^verbatim>\<open>serveWithMiddleware\<close> starts at \<^verbatim>\<open>len(r.middleware) - 1\<close>. Its first iteration indexes
  the slice out of range: for every group, router, method, path and handler the call
  panics before it reaches \<^verbatim>\<open>Router.AddRoute\<close>, and nothing is registered.
\<close>

theorem Group_AddRoute_panics:
  "Group_AddRoute g r method path h = Inl IndexOutOfRange
   \<and> Group_AddRoute (Router_Group r pre) r method path h = Inl IndexOutOfRange
   \<and> Group_AddRoute (foldl Group_Use (Router_Group r pre) mws) r method path h
       = Inl IndexOutOfRange"
proof -
  have "Group_AddRoute g' r method path h = Inl IndexOutOfRange" for g' :: "'a Group"
    unfolding Group_AddRoute_def Let_def
    by (simp only: wrapLoop_past_end sum.case)
  then show ?thesis by blast
qed

subsection \<open>C2: the order of the global middleware\<close>

text \<open>
  C2. For the middleware \<open>[m0, ..., mn-1]\<close> registered through \<^verbatim>\<open>Router.Use\<close> in that order
  and a handler \<open>h\<close> selected by dispatch, the handler invoked is \<open>m0 (m1 (... (mn-1 h)))\<close>:
  \<^verbatim>\<open>Use\<close> appends, \<^verbatim>\<open>serveWithMiddleware\<close> calls the right fold of the list over \<open>h\<close>, and
  \<^verbatim>\<open>ServeHTTP\<close> calls that fold on the handler it selected (and the fallback, unwrapped, when
  it selected none). With no middleware \<open>h\<close> is called directly, once. With two middleware
  that run \<open>pre\<close> before and \<open>post\<close> after the handler they wrap, the first registered runs
  its \<open>pre\<close> first and its \<open>post\<close> last.
\<close>

theorem middleware_composition_order:
  "middleware (foldl Router_Use (NewRouter nf) ms) = ms
   \<and> serveWithMiddleware (foldl Router_Use (NewRouter nf) ms) h w req
       = call (foldr (\<lambda>m k. m k) ms h) w req
   \<and> serveWithMiddleware r h w req = call (foldr (\<lambda>m k. m k) (middleware r) h) w req
   \<and> ServeHTTP r w req =
       (case selectRoute r (Method req) (URL_Path req) of
          StaticHit s \<Rightarrow> call (foldr (\<lambda>m k. m k) (middleware r) s) w req
        | DynamicHit d ps \<Rightarrow>
            call (foldr (\<lambda>m k. m k) (middleware r) d) w
              (req\<lparr>Context := (Context req)(''params'' \<mapsto> ps)\<rparr>)
        | Miss \<Rightarrow> call (notFound r) w req)
   \<and> serveWithMiddleware (NewRouter nf) h w req = call h w req
   \<and> serveWithMiddleware
         (Router_Use (Router_Use (NewRouter nf) (around a_pre a_post)) (around b_pre b_post))
         (Some f) w req
       = (case f (b_pre (a_pre w)) req of Inl e \<Rightarrow> Inl e | Inr w' \<Rightarrow> Inr (a_post (b_post w')))"
proof -
  have m: "middleware (foldl Router_Use (NewRouter nf) ms) = ms"
    by (simp add: middleware_foldl_Use NewRouter_def)
  have s: "ServeHTTP r w req =
       (case selectRoute r (Method req) (URL_Path req) of
          StaticHit s \<Rightarrow> call (foldr (\<lambda>m k. m k) (middleware r) s) w req
        | DynamicHit d ps \<Rightarrow>
            call (foldr (\<lambda>m k. m k) (middleware r) d) w
              (req\<lparr>Context := (Context req)(''params'' \<mapsto> ps)\<rparr>)
        | Miss \<Rightarrow> call (notFound r) w req)"
    by (simp add: ServeHTTP_selectRoute serveWithMiddleware_foldr WithValue_def
        split: selection.splits)
  have e: "serveWithMiddleware (NewRouter nf) h w req = call h w req"
    by (simp add: serveWithMiddleware_def NewRouter_def)
  have a: "serveWithMiddleware
         (Router_Use (Router_Use (NewRouter nf) (around a_pre a_post)) (around b_pre b_post))
         (Some f) w req
       = (case f (b_pre (a_pre w)) req of Inl e \<Rightarrow> Inl e | Inr w' \<Rightarrow> Inr (a_post (b_post w')))"
    by (simp add: serveWithMiddleware_foldr Router_Use_def NewRouter_def around_def call_def
        split: sum.splits)
  show ?thesis
    using m s e a by (simp add: serveWithMiddleware_foldr)
qed

subsection \<open>C3: a route with one named parameter\<close>

text \<open>
  C3. A route whose segments are literal but for one named parameter, registered on a
  router that has no trie for the method yet: a request for the same path with the value
  \<open>v\<close> in the parameter's place invokes the route's handler, wrapped by the global
  middleware, on the request whose context holds the mapping \<open>{name: v}\<close> under the key
  \<^verbatim>\<open>"params"\<close>. The value is a segment other than \<^verbatim>\<open>":param"\<close>, the key under which the trie
  files the parameter child, and the static table has no entry for the requested path.
  The route \<^verbatim>\<open>/users/:id\<close> with the request \<^verbatim>\<open>/users/42\<close> is the instance
  \<open>lits1 = [users]\<close>, \<open>name = id\<close>, \<open>lits2 = []\<close>, \<open>v = 42\<close>.
\<close>

theorem single_parameter_route:
  assumes lits: "list_all literal lits1" "list_all literal lits2"
    and name: "segment name"
    and v: "segment v" "v \<noteq> '':param''"
    and trie: "dynamicRoutes r m = None"
    and static: "staticRoutes r (m @ '' '' @ Join (lits1 @ v # lits2)) = None"
    and req: "Method req = m" "URL_Path req = slash # Join (lits1 @ v # lits2)"
  shows "\<exists>r'. Router_AddRoute r m (slash # Join (lits1 @ (CHR '':'' # name) # lits2)) (Some h) = Inr r'
           \<and> ServeHTTP r' w req =
               serveWithMiddleware r' (Some h) w
                 (req\<lparr>Context := (Context req)(''params'' \<mapsto> Some [name \<mapsto> v])\<rparr>)"
proof -
  define r' where "r' = r\<lparr>dynamicRoutes := (dynamicRoutes r)(m \<mapsto>
            insertLoop (newNode False False []) (lits1 @ (CHR '':'' # name) # lits2) (Some h))\<rparr>"
  have "Router_AddRoute r m (slash # Join (lits1 @ (CHR '':'' # name) # lits2)) (Some h) = Inr r'"
    unfolding single_param_add [OF lits name] r'_def by (simp add: trie)
  moreover have "ServeHTTP r' w req =
               serveWithMiddleware r' (Some h) w
                 (req\<lparr>Context := (Context req)(''params'' \<mapsto> Some [name \<mapsto> v])\<rparr>)"
    using lits name v static req r'_def by (rule single_param_dispatch)
  ultimately show ?thesis by blast
qed

text \<open>
  The instance of the claim: \<^verbatim>\<open>GET /users/:id\<close> behind one middleware, requested as
  \<^verbatim>\<open>GET /users/42\<close>. The handler logs the parameter it finds in the context.
\<close>

theorem single_parameter_route_witness:
  "\<exists>r'. Router_AddRoute (Router_Use (NewRouter (say ''404'')) (around (\<lambda>w. w @ [''in'']) (\<lambda>w. w @ [''out''])))
            ''GET'' ''/users/:id'' (Some (show_param ''id'')) = Inr r'
      \<and> ServeHTTP r' [] \<lparr>Method = ''GET'', URL_Path = ''/users/42'', Context = Map.empty\<rparr>
          = Inr [''in'', ''id=42'', ''out'']"
proof -
  let ?r = "Router_Use (NewRouter (say ''404'')) (around (\<lambda>w. w @ [''in'']) (\<lambda>w. w @ [''out'']))"
  let ?req = "\<lparr>Method = ''GET'', URL_Path = ''/users/42'', Context = Map.empty\<rparr>"
  have "\<exists>r'. Router_AddRoute ?r ''GET'' (slash # Join ([''users''] @ (CHR '':'' # ''id'') # [])) (Some (show_param ''id'')) = Inr r'
           \<and> ServeHTTP r' [] ?req =
               serveWithMiddleware r' (Some (show_param ''id'')) []
                 (?req\<lparr>Context := (Context ?req)(''params'' \<mapsto> Some [''id'' \<mapsto> ''42''])\<rparr>)"
    by (rule single_parameter_route)
       (simp_all add: literal_def segment_def HasPrefix_def slash_def NewRouter_def Router_Use_def)
  then obtain r' where
    add: "Router_AddRoute ?r ''GET'' ''/users/:id'' (Some (show_param ''id'')) = Inr r'"
    and serve: "ServeHTTP r' [] ?req = serveWithMiddleware r' (Some (show_param ''id'')) []
                 (?req\<lparr>Context := (Context ?req)(''params'' \<mapsto> Some [''id'' \<mapsto> ''42''])\<rparr>)"
    by (auto simp: slash_def)
  have dyn: "Contains (Trim ''/users/:id'') CHR '':''"
    by (simp add: Contains_def Trim_def TrimLeft_def TrimRight_def slash_def)
  have mw: "middleware r' = [around (\<lambda>w. w @ [''in'']) (\<lambda>w. w @ [''out''])]"
    using add by (auto simp: Router_AddRoute_dynamic dyn Router_Use_def NewRouter_def)
  have "serveWithMiddleware r' (Some (show_param ''id'')) []
                 (?req\<lparr>Context := (Context ?req)(''params'' \<mapsto> Some [''id'' \<mapsto> ''42''])\<rparr>)
       = Inr [''in'', ''id=42'', ''out'']"
    by (simp add: serveWithMiddleware_foldr mw around_def call_def show_param_def)
  with add serve show ?thesis by auto
qed

subsection \<open>C4: static routes come first\<close>

text \<open>
  C4. A route whose trimmed path has neither \<^verbatim>\<open>:\<close> nor \<^verbatim>\<open>*\<close> goes to the static table, and
  a request for that method and path invokes its handler, wrapped by the global
  middleware, whatever the router held before (any trie, any dynamic route matching the
  path) and whatever dynamic route is registered afterwards: \<^verbatim>\<open>ServeHTTP\<close> looks in the
  static table first.
\<close>

theorem static_route_priority:
  assumes "\<not> Contains (Trim path) CHR '':''" "\<not> Contains (Trim path) CHR ''*''"
    and "Method req = method" "URL_Path req = path"
  shows "\<exists>r'. Router_AddRoute r method path h = Inr r'
           \<and> ServeHTTP r' w req = serveWithMiddleware r' h w req
           \<and> (\<forall>m' p' h'. Contains (Trim p') CHR '':'' \<or> Contains (Trim p') CHR ''*'' \<longrightarrow>
                (\<exists>r''. Router_AddRoute r' m' p' h' = Inr r''
                   \<and> ServeHTTP r'' w req = serveWithMiddleware r'' h w req))"
proof -
  define r' where "r' = r\<lparr>staticRoutes := (staticRoutes r)(method @ '' '' @ Trim path \<mapsto> h)\<rparr>"
  have add: "Router_AddRoute r method path h = Inr r'"
    using assms(1,2) by (simp add: Router_AddRoute_static r'_def)
  have key: "staticRoutes r' (Method req @ '' '' @ Trim (URL_Path req)) = Some h"
    using assms(3,4) by (simp add: r'_def)
  have here: "ServeHTTP r' w req = serveWithMiddleware r' h w req"
    using key by (rule ServeHTTP_static_hit)
  have later: "\<exists>r''. Router_AddRoute r' m' p' h' = Inr r''
                   \<and> ServeHTTP r'' w req = serveWithMiddleware r'' h w req"
    if dyn: "Contains (Trim p') CHR '':'' \<or> Contains (Trim p') CHR ''*''" for m' p' h'
  proof -
    obtain r'' where add': "Router_AddRoute r' m' p' h' = Inr r''"
      using Router_AddRoute_total by blast
    have "staticRoutes r'' = staticRoutes r'"
      using dyn add' by (rule Router_AddRoute_dynamic_static)
    then have "staticRoutes r'' (Method req @ '' '' @ Trim (URL_Path req)) = Some h"
      using key by simp
    then have "ServeHTTP r'' w req = serveWithMiddleware r'' h w req"
      by (rule ServeHTTP_static_hit)
    with add' show ?thesis by blast
  qed
  show ?thesis using add here later by blast
qed

text \<open>
  A static route between two dynamic routes that match the same path.
\<close>

theorem static_route_priority_witness:
  "\<exists>r0 r1 r2.
      Router_AddRoute (NewRouter (say ''404'')) ''GET'' ''/users/:id'' (Some (say ''dynamic'')) = Inr r0
    \<and> Router_AddRoute r0 ''GET'' ''/users/me'' (Some (say ''static'')) = Inr r1
    \<and> ServeHTTP r1 [] \<lparr>Method = ''GET'', URL_Path = ''/users/me'', Context = Map.empty\<rparr> = Inr [''static'']
    \<and> Router_AddRoute r1 ''GET'' ''/users/*'' (Some (say ''wildcard'')) = Inr r2
    \<and> ServeHTTP r2 [] \<lparr>Method = ''GET'', URL_Path = ''/users/me'', Context = Map.empty\<rparr> = Inr [''static'']"
proof -
  let ?req = "\<lparr>Method = ''GET'', URL_Path = ''/users/me'', Context = Map.empty\<rparr>"
  obtain r0 where r0: "Router_AddRoute (NewRouter (say ''404'')) ''GET'' ''/users/:id'' (Some (say ''dynamic'')) = Inr r0"
    using Router_AddRoute_total by blast
  have st: "\<not> Contains (Trim ''/users/me'') CHR '':''" "\<not> Contains (Trim ''/users/me'') CHR ''*''"
    by (simp_all add: Contains_def Trim_def TrimLeft_def TrimRight_def slash_def)
  have dy: "Contains (Trim ''/users/*'') CHR '':'' \<or> Contains (Trim ''/users/*'') CHR ''*''"
    by (simp add: Contains_def Trim_def TrimLeft_def TrimRight_def slash_def)
  obtain r1 where r1: "Router_AddRoute r0 ''GET'' ''/users/me'' (Some (say ''static'')) = Inr r1"
    and s1: "ServeHTTP r1 [] ?req = serveWithMiddleware r1 (Some (say ''static'')) [] ?req"
    and later: "\<forall>m' p' h'. Contains (Trim p') CHR '':'' \<or> Contains (Trim p') CHR ''*'' \<longrightarrow>
                (\<exists>r''. Router_AddRoute r1 m' p' h' = Inr r''
                   \<and> ServeHTTP r'' [] ?req = serveWithMiddleware r'' (Some (say ''static'')) [] ?req)"
    using static_route_priority [OF st, of ?req "''GET''" r0 "Some (say ''static'')" "[]"] by auto
  obtain r2 where r2: "Router_AddRoute r1 ''GET'' ''/users/*'' (Some (say ''wildcard'')) = Inr r2"
    and s2: "ServeHTTP r2 [] ?req = serveWithMiddleware r2 (Some (say ''static'')) [] ?req"
    using later dy by blast
  have "middleware r0 = []"
    using Router_AddRoute_middleware [OF r0] by (simp add: NewRouter_def)
  then have m1: "middleware r1 = []" using Router_AddRoute_middleware [OF r1] by simp
  then have m2: "middleware r2 = []" using Router_AddRoute_middleware [OF r2] by simp
  have "ServeHTTP r1 [] ?req = Inr [''static'']"
    using s1 m1 by (simp add: serveWithMiddleware_foldr call_def say_def)
  moreover have "ServeHTTP r2 [] ?req = Inr [''static'']"
    using s2 m2 by (simp add: serveWithMiddleware_foldr call_def say_def)
  ultimately show ?thesis using r0 r1 r2 by blast
qed

subsection \<open>C5: a literal child before the parameter child\<close>

text \<open>
  C5. In the search of the trie a child whose key is the request's segment is taken,
  whether or not the node has a parameter child, and nothing is bound for that segment.
  With \<^verbatim>\<open>/users/me\<close> and \<^verbatim>\<open>/users/:id\<close> registered, a request for \<^verbatim>\<open>/users/me\<close> invokes the
  handler of \<^verbatim>\<open>/users/me\<close>, on the request as it came (that route has no marker, so it is
  in the static table). With \<^verbatim>\<open>/users/:id/*\<close> and \<^verbatim>\<open>/users/me/*\<close> registered, both in the
  trie, a request for \<^verbatim>\<open>/users/me/v\<close> invokes the handler of \<^verbatim>\<open>/users/me/*\<close> with an empty
  parameter mapping. Either route may be registered first.
\<close>

theorem literal_child_preferred:
  "(children (n :: 'w node) part = Some child \<longrightarrow>
      searchLoop n (part # parts) ps = searchLoop child parts ps)
   \<and> (Method req = m \<and> URL_Path req = ''/users/me'' \<longrightarrow>
        (\<exists>r1 r2. Router_AddRoute r m ''/users/me'' h1 = Inr r1
           \<and> Router_AddRoute r1 m ''/users/:id'' h2 = Inr r2
           \<and> ServeHTTP r2 (w :: 'w) req = serveWithMiddleware r2 h1 w req)
        \<and> (\<exists>r1 r2. Router_AddRoute r m ''/users/:id'' h2 = Inr r1
           \<and> Router_AddRoute r1 m ''/users/me'' h1 = Inr r2
           \<and> ServeHTTP r2 w req = serveWithMiddleware r2 h1 w req))
   \<and> (Method req = m \<and> URL_Path req = ''/users/me/'' @ v \<and> segment v
        \<and> dynamicRoutes r m = None \<and> staticRoutes r (m @ '' users/me/'' @ v) = None \<longrightarrow>
        (\<exists>r1 r2. Router_AddRoute r m ''/users/:id/*'' (Some f2) = Inr r1
           \<and> Router_AddRoute r1 m ''/users/me/*'' (Some f1) = Inr r2
           \<and> ServeHTTP r2 w req =
               serveWithMiddleware r2 (Some f1) w
                 (req\<lparr>Context := (Context req)(''params'' \<mapsto> Some Map.empty)\<rparr>))
        \<and> (\<exists>r1 r2. Router_AddRoute r m ''/users/me/*'' (Some f1) = Inr r1
           \<and> Router_AddRoute r1 m ''/users/:id/*'' (Some f2) = Inr r2
           \<and> ServeHTTP r2 w req =
               serveWithMiddleware r2 (Some f1) w
                 (req\<lparr>Context := (Context req)(''params'' \<mapsto> Some Map.empty)\<rparr>)))"
proof (intro conjI impI)
  assume "children n part = Some child"
  then show "searchLoop n (part # parts) ps = searchLoop child parts ps" by simp
next
  assume req: "Method req = m \<and> URL_Path req = ''/users/me''"
  obtain r1 where r1: "Router_AddRoute r m ''/users/me'' h1 = Inr r1"
    using Router_AddRoute_total by blast
  obtain r2 where r2: "Router_AddRoute r1 m ''/users/:id'' h2 = Inr r2"
    using Router_AddRoute_total by blast
  have "staticRoutes r1 (m @ '' '' @ ''users/me'') = Some h1"
    using r1 by (auto simp: Router_AddRoute_static [OF users_me_static] Trim_users_me)
  moreover have "staticRoutes r2 = staticRoutes r1"
    using users_id_dynamic r2 by (rule Router_AddRoute_dynamic_static)
  ultimately have "staticRoutes r2 (Method req @ '' '' @ Trim (URL_Path req)) = Some h1"
    using req by (simp add: Trim_users_me)
  then have "ServeHTTP r2 w req = serveWithMiddleware r2 h1 w req"
    by (rule ServeHTTP_static_hit)
  with r1 r2 show "\<exists>r1 r2. Router_AddRoute r m ''/users/me'' h1 = Inr r1
           \<and> Router_AddRoute r1 m ''/users/:id'' h2 = Inr r2
           \<and> ServeHTTP r2 w req = serveWithMiddleware r2 h1 w req" by blast
next
  assume req: "Method req = m \<and> URL_Path req = ''/users/me''"
  obtain r1 where r1: "Router_AddRoute r m ''/users/:id'' h2 = Inr r1"
    using Router_AddRoute_total by blast
  obtain r2 where r2: "Router_AddRoute r1 m ''/users/me'' h1 = Inr r2"
    using Router_AddRoute_total by blast
  have "staticRoutes r2 (m @ '' '' @ ''users/me'') = Some h1"
    using r2 by (auto simp: Router_AddRoute_static [OF users_me_static] Trim_users_me)
  then have "staticRoutes r2 (Method req @ '' '' @ Trim (URL_Path req)) = Some h1"
    using req by (simp add: Trim_users_me)
  then have "ServeHTTP r2 w req = serveWithMiddleware r2 h1 w req"
    by (rule ServeHTTP_static_hit)
  with r1 r2 show "\<exists>r1 r2. Router_AddRoute r m ''/users/:id'' h2 = Inr r1
           \<and> Router_AddRoute r1 m ''/users/me'' h1 = Inr r2
           \<and> ServeHTTP r2 w req = serveWithMiddleware r2 h1 w req" by blast
next
  assume a: "Method req = m \<and> URL_Path req = ''/users/me/'' @ v \<and> segment v
        \<and> dynamicRoutes r m = None \<and> staticRoutes r (m @ '' users/me/'' @ v) = None"
  then have v: "segment v" and trie: "dynamicRoutes r m = None"
    and static: "staticRoutes r (m @ '' users/me/'' @ v) = None"
    and req: "Method req = m" "URL_Path req = ''/users/me/'' @ v"
    by simp_all
  define t1 where "t1 = insertLoop (newNode False False []) [''users'', '':id'', ''*''] (Some f2)"
  define r1 where "r1 = r\<lparr>dynamicRoutes := (dynamicRoutes r)(m \<mapsto> t1)\<rparr>"
  define t2 where "t2 = insertLoop t1 [''users'', ''me'', ''*''] (Some f1)"
  define r2 where "r2 = r1\<lparr>dynamicRoutes := (dynamicRoutes r1)(m \<mapsto> t2)\<rparr>"
  have a1: "Router_AddRoute r m ''/users/:id/*'' (Some f2) = Inr r1"
    unfolding add_users_id_wild r1_def t1_def by (simp add: trie)
  have a2: "Router_AddRoute r1 m ''/users/me/*'' (Some f1) = Inr r2"
    unfolding add_users_me_wild r2_def t2_def by (simp add: r1_def)
  have "ServeHTTP r2 w req =
               serveWithMiddleware r2 (Some f1) w
                 (req\<lparr>Context := (Context req)(''params'' \<mapsto> Some Map.empty)\<rparr>)"
  proof (rule users_me_wild_dispatch [OF v _ req])
    show "staticRoutes r2 (m @ '' users/me/'' @ v) = None"
      using static by (simp add: r2_def r1_def)
    show "dynamicRoutes r2 m = Some t2" by (simp add: r2_def)
    show "searchLoop t2 [''users'', ''me'', v] Map.empty = (Some f1, Some Map.empty)"
      unfolding t2_def t1_def by (rule search_users_me_wild)
  qed
  with a1 a2 show "\<exists>r1 r2. Router_AddRoute r m ''/users/:id/*'' (Some f2) = Inr r1
           \<and> Router_AddRoute r1 m ''/users/me/*'' (Some f1) = Inr r2
           \<and> ServeHTTP r2 w req =
               serveWithMiddleware r2 (Some f1) w
                 (req\<lparr>Context := (Context req)(''params'' \<mapsto> Some Map.empty)\<rparr>)"
    by blast
next
  assume a: "Method req = m \<and> URL_Path req = ''/users/me/'' @ v \<and> segment v
        \<and> dynamicRoutes r m = None \<and> staticRoutes r (m @ '' users/me/'' @ v) = None"
  then have v: "segment v" and trie: "dynamicRoutes r m = None"
    and static: "staticRoutes r (m @ '' users/me/'' @ v) = None"
    and req: "Method req = m" "URL_Path req = ''/users/me/'' @ v"
    by simp_all
  define t1 where "t1 = insertLoop (newNode False False []) [''users'', ''me'', ''*''] (Some f1)"
  define r1 where "r1 = r\<lparr>dynamicRoutes := (dynamicRoutes r)(m \<mapsto> t1)\<rparr>"
  define t2 where "t2 = insertLoop t1 [''users'', '':id'', ''*''] (Some f2)"
  define r2 where "r2 = r1\<lparr>dynamicRoutes := (dynamicRoutes r1)(m \<mapsto> t2)\<rparr>"
  have a1: "Router_AddRoute r m ''/users/me/*'' (Some f1) = Inr r1"
    unfolding add_users_me_wild r1_def t1_def by (simp add: trie)
  have a2: "Router_AddRoute r1 m ''/users/:id/*'' (Some f2) = Inr r2"
    unfolding add_users_id_wild r2_def t2_def by (simp add: r1_def)
  have "ServeHTTP r2 w req =
               serveWithMiddleware r2 (Some f1) w
                 (req\<lparr>Context := (Context req)(''params'' \<mapsto> Some Map.empty)\<rparr>)"
  proof (rule users_me_wild_dispatch [OF v _ req])
    show "staticRoutes r2 (m @ '' users/me/'' @ v) = None"
      using static by (simp add: r2_def r1_def)
    show "dynamicRoutes r2 m = Some t2" by (simp add: r2_def)
    show "searchLoop t2 [''users'', ''me'', v] Map.empty = (Some f1, Some Map.empty)"
      unfolding t2_def t1_def by (rule search_users_me_wild)
  qed
  with a1 a2 show "\<exists>r1 r2. Router_AddRoute r m ''/users/me/*'' (Some f1) = Inr r1
           \<and> Router_AddRoute r1 m ''/users/:id/*'' (Some f2) = Inr r2
           \<and> ServeHTTP r2 w req =
               serveWithMiddleware r2 (Some f1) w
                 (req\<lparr>Context := (Context req)(''params'' \<mapsto> Some Map.empty)\<rparr>)"
    by blast
qed

text \<open>
  The three parts at concrete inputs: a node with a literal and a parameter child, and
  the two pairs of routes.
\<close>

theorem literal_child_preferred_witness:
  "searchLoop
     (Node [''me'' \<mapsto> Node Map.empty (Some (say ''h1'')) False False [],
            '':param'' \<mapsto> Node Map.empty (Some (say ''h2'')) True False ''id'']
        None False False [])
     [''me''] Map.empty = (Some (say ''h1''), Some Map.empty)
   \<and> (\<exists>r1 r2. Router_AddRoute (NewRouter (say ''404'')) ''GET'' ''/users/me'' (Some (say ''h1'')) = Inr r1
         \<and> Router_AddRoute r1 ''GET'' ''/users/:id'' (Some (show_param ''id'')) = Inr r2
         \<and> ServeHTTP r2 [] \<lparr>Method = ''GET'', URL_Path = ''/users/me'', Context = Map.empty\<rparr>
             = Inr [''h1''])
   \<and> (\<exists>r1 r2. Router_AddRoute (NewRouter (say ''404'')) ''GET'' ''/users/:id/*'' (Some (say ''h2'')) = Inr r1
         \<and> Router_AddRoute r1 ''GET'' ''/users/me/*'' (Some (show_param ''id'')) = Inr r2
         \<and> ServeHTTP r2 [] \<lparr>Method = ''GET'', URL_Path = ''/users/me/x'', Context = Map.empty\<rparr>
             = Inr [''id unbound''])"
proof -
  let ?nf = "NewRouter (say ''404'')"
  let ?n = "Node [''me'' \<mapsto> Node Map.empty (Some (say ''h1'')) False False [],
            '':param'' \<mapsto> Node Map.empty (Some (say ''h2'')) True False ''id'']
        None False False []"
  let ?req1 = "\<lparr>Method = ''GET'', URL_Path = ''/users/me'', Context = Map.empty\<rparr>"
  let ?req2 = "\<lparr>Method = ''GET'', URL_Path = ''/users/me/x'', Context = Map.empty\<rparr>"
  note inst = literal_child_preferred [of ?n "''me''" "Node Map.empty (Some (say ''h1'')) False False []"
      "[]" Map.empty _ "''GET''" ?nf "Some (say ''h1'')" "Some (show_param ''id'')" "[]" "''x''"
      "say ''h2''" "show_param ''id''"]
  have c1: "searchLoop ?n [''me''] Map.empty = (Some (say ''h1''), Some Map.empty)"
    using inst [of ?req1] by simp
  obtain r1 r2 where
    a1: "Router_AddRoute ?nf ''GET'' ''/users/me'' (Some (say ''h1'')) = Inr r1"
    and a2: "Router_AddRoute r1 ''GET'' ''/users/:id'' (Some (show_param ''id'')) = Inr r2"
    and s: "ServeHTTP r2 [] ?req1 = serveWithMiddleware r2 (Some (say ''h1'')) [] ?req1"
    using inst [of ?req1] by auto
  have "middleware r2 = []"
    using Router_AddRoute_middleware [OF a2] Router_AddRoute_middleware [OF a1]
    by (simp add: NewRouter_def)
  then have c2: "ServeHTTP r2 [] ?req1 = Inr [''h1'']"
    using s by (simp add: serveWithMiddleware_foldr call_def say_def)
  have hyp: "Method ?req2 = ''GET'' \<and> URL_Path ?req2 = ''/users/me/'' @ ''x'' \<and> segment ''x''
        \<and> dynamicRoutes ?nf ''GET'' = None \<and> staticRoutes ?nf (''GET'' @ '' users/me/'' @ ''x'') = None"
    by (simp add: segment_def slash_def NewRouter_def)
  obtain q1 q2 where
    b1: "Router_AddRoute ?nf ''GET'' ''/users/:id/*'' (Some (say ''h2'')) = Inr q1"
    and b2: "Router_AddRoute q1 ''GET'' ''/users/me/*'' (Some (show_param ''id'')) = Inr q2"
    and t: "ServeHTTP q2 [] ?req2 = serveWithMiddleware q2 (Some (show_param ''id'')) []
                 (?req2\<lparr>Context := (Context ?req2)(''params'' \<mapsto> Some Map.empty)\<rparr>)"
    using inst [of ?req2] hyp by blast
  have "middleware q2 = []"
    using Router_AddRoute_middleware [OF b2] Router_AddRoute_middleware [OF b1]
    by (simp add: NewRouter_def)
  then have c3: "ServeHTTP q2 [] ?req2 = Inr [''id unbound'']"
    using t by (simp add: serveWithMiddleware_foldr call_def show_param_def)
  show ?thesis using c1 a1 a2 c2 b1 b2 c3 by blast
qed

subsection \<open>C6: the wildcard ends the search\<close>

text \<open>
  C6. When the node has no child for the segment and no parameter child, and has a
  wildcard child, the search returns the wildcard child's handler and the parameters
  bound so far, whatever segments remain. With \<^verbatim>\<open>/files/*\<close> registered, a request whose
  segments are \<^verbatim>\<open>files\<close>, a segment \<open>a\<close> and any further segments invokes the handler.
  The segment \<open>a\<close> is not \<^verbatim>\<open>*\<close> itself, which is the key of the wildcard child and is found
  as a child.
\<close>

theorem wildcard_short_circuit:
  "(children (n :: 'w node) part = None \<and> children n '':param'' = None \<and> children n ''*'' = Some wc
      \<longrightarrow> searchLoop n (part # rest) ps = (handler wc, Some ps))
   \<and> (Method req = m \<and> Split (Trim (URL_Path req)) = ''files'' # a # segs \<and> a \<noteq> ''*''
        \<and> dynamicRoutes r m = None \<and> staticRoutes r (m @ '' '' @ Trim (URL_Path req)) = None
      \<longrightarrow> (\<exists>r'. Router_AddRoute r m ''/files/*'' (Some f) = Inr r'
             \<and> ServeHTTP r' (w :: 'w) req =
                 serveWithMiddleware r' (Some f) w
                   (req\<lparr>Context := (Context req)(''params'' \<mapsto> Some Map.empty)\<rparr>)))"
proof (intro conjI impI)
  assume "children n part = None \<and> children n '':param'' = None \<and> children n ''*'' = Some wc"
  then show "searchLoop n (part # rest) ps = (handler wc, Some ps)" by simp
next
  assume a: "Method req = m \<and> Split (Trim (URL_Path req)) = ''files'' # a # segs \<and> a \<noteq> ''*''
        \<and> dynamicRoutes r m = None \<and> staticRoutes r (m @ '' '' @ Trim (URL_Path req)) = None"
  then have meth: "Method req = m" and sp: "Split (Trim (URL_Path req)) = ''files'' # a # segs"
    and ne: "a \<noteq> ''*''" and trie: "dynamicRoutes r m = None"
    and static: "staticRoutes r (m @ '' '' @ Trim (URL_Path req)) = None"
    by simp_all
  define t where "t = insertLoop (newNode False False []) [''files'', ''*''] (Some f)"
  define r' where "r' = r\<lparr>dynamicRoutes := (dynamicRoutes r)(m \<mapsto> t)\<rparr>"
  have add: "Router_AddRoute r m ''/files/*'' (Some f) = Inr r'"
    unfolding r'_def t_def by (rule add_files_wild [OF trie])
  have s: "staticRoutes r' (Method req @ '' '' @ Trim (URL_Path req)) = None"
    using static by (simp add: r'_def meth)
  have d: "dynamicRoutes r' (Method req) = Some t"
    by (simp add: r'_def meth)
  have f: "searchLoop t (Split (Trim (URL_Path req))) Map.empty = (Some f, Some Map.empty)"
    unfolding sp t_def by (rule search_files_wild [OF ne])
  have "ServeHTTP r' w req = serveWithMiddleware r' (Some f) w (WithValue req ''params'' (Some Map.empty))"
    using s d f by (rule ServeHTTP_dynamic_hit)
  then have "ServeHTTP r' w req =
                 serveWithMiddleware r' (Some f) w
                   (req\<lparr>Context := (Context req)(''params'' \<mapsto> Some Map.empty)\<rparr>)"
    by (simp only: WithValue_def)
  with add show "\<exists>r'. Router_AddRoute r m ''/files/*'' (Some f) = Inr r'
             \<and> ServeHTTP r' w req =
                 serveWithMiddleware r' (Some f) w
                   (req\<lparr>Context := (Context req)(''params'' \<mapsto> Some Map.empty)\<rparr>)"
    by blast
qed

text \<open>
  A node with a wildcard child only, and \<^verbatim>\<open>GET /files/a/b/c\<close> against \<^verbatim>\<open>/files/*\<close>.
\<close>

theorem wildcard_short_circuit_witness:
  "searchLoop
     (Node [''*'' \<mapsto> Node Map.empty (Some (say ''h'')) False True []] None False False [])
     [''a'', ''b'', ''c''] Map.empty = (Some (say ''h''), Some Map.empty)
   \<and> (\<exists>r'. Router_AddRoute (NewRouter (say ''404'')) ''GET'' ''/files/*'' (Some (say ''h'')) = Inr r'
         \<and> ServeHTTP r' [] \<lparr>Method = ''GET'', URL_Path = ''/files/a/b/c'', Context = Map.empty\<rparr>
             = Inr [''h''])"
proof -
  let ?nf = "NewRouter (say ''404'')"
  let ?wc = "Node Map.empty (Some (say ''h'')) False True []"
  let ?n = "Node [''*'' \<mapsto> ?wc] None False False []"
  let ?req = "\<lparr>Method = ''GET'', URL_Path = ''/files/a/b/c'', Context = Map.empty\<rparr>"
  note inst = wildcard_short_circuit [of ?n "''a''" ?wc "[''b'', ''c'']" Map.empty ?req "''GET''"
      "''a''" "[''b'', ''c'']" ?nf "say ''h''" "[]"]
  have c1: "searchLoop ?n [''a'', ''b'', ''c''] Map.empty = (Some (say ''h''), Some Map.empty)"
    using inst by simp
  have hyp: "Method ?req = ''GET'' \<and> Split (Trim (URL_Path ?req)) = ''files'' # ''a'' # [''b'', ''c'']
        \<and> ''a'' \<noteq> ''*''
        \<and> dynamicRoutes ?nf ''GET'' = None \<and> staticRoutes ?nf (''GET'' @ '' '' @ Trim (URL_Path ?req)) = None"
    by (simp add: Trim_def TrimLeft_def TrimRight_def slash_def NewRouter_def)
  obtain r' where a: "Router_AddRoute ?nf ''GET'' ''/files/*'' (Some (say ''h'')) = Inr r'"
    and s: "ServeHTTP r' [] ?req = serveWithMiddleware r' (Some (say ''h'')) []
                   (?req\<lparr>Context := (Context ?req)(''params'' \<mapsto> Some Map.empty)\<rparr>)"
    using inst hyp by blast
  have "middleware r' = []"
    using Router_AddRoute_middleware [OF a] by (simp add: NewRouter_def)
  then have "ServeHTTP r' [] ?req = Inr [''h'']"
    using s by (simp add: serveWithMiddleware_foldr call_def say_def)
  with c1 a show ?thesis by blast
qed

subsection \<open>C7: the not-found fallback\<close>

text \<open>
  C7. A request that misses the static table, and for whose method there is no trie or
  the search returns no handler, gets the fallback, called once and unwrapped, and no
  other handler. A search that ends on a node without a handler returns none: after
  registering a route that continues below the literal segments \<open>lits\<close>, a request for
  \<open>lits\<close> alone gets the fallback. The fallback of a new router is \<^verbatim>\<open>http.NotFound\<close>, and
  neither \<^verbatim>\<open>Use\<close> nor \<^verbatim>\<open>AddRoute\<close> changes it.
\<close>

theorem not_found_fallback:
  "(staticRoutes r (Method req @ '' '' @ Trim (URL_Path req)) = None
      \<and> (case dynamicRoutes r (Method req) of
            None \<Rightarrow> True
          | Some root \<Rightarrow> fst (searchDynamicRoute root (Trim (URL_Path req))) = None)
      \<longrightarrow> ServeHTTP r (w :: 'w) req = call (notFound r) w req)
   \<and> (handler (n :: 'w node) = None \<longrightarrow> fst (searchLoop n [] ps) = None)
   \<and> (list_all literal lits \<and> lits \<noteq> [] \<and> segment name
        \<and> dynamicRoutes r m = None \<and> staticRoutes r (m @ '' '' @ Join lits) = None
        \<and> Method req = m \<and> URL_Path req = slash # Join lits
      \<longrightarrow> (\<exists>r'. Router_AddRoute r m (slash # Join (lits @ [CHR '':'' # name])) h = Inr r'
             \<and> ServeHTTP r' w req = call (notFound r') w req))
   \<and> notFound (NewRouter nf) = Some nf
   \<and> notFound (Router_Use r mw) = notFound r
   \<and> (Router_AddRoute r m0 p0 h0 = Inr r0 \<longrightarrow> notFound r0 = notFound r)"
proof (intro conjI impI)
  assume "staticRoutes r (Method req @ '' '' @ Trim (URL_Path req)) = None
      \<and> (case dynamicRoutes r (Method req) of
            None \<Rightarrow> True
          | Some root \<Rightarrow> fst (searchDynamicRoute root (Trim (URL_Path req))) = None)"
  then show "ServeHTTP r w req = call (notFound r) w req"
    by (intro ServeHTTP_miss) simp_all
next
  assume "handler n = None"
  then show "fst (searchLoop n [] ps) = None" by simp
next
  assume a: "list_all literal lits \<and> lits \<noteq> [] \<and> segment name
        \<and> dynamicRoutes r m = None \<and> staticRoutes r (m @ '' '' @ Join lits) = None
        \<and> Method req = m \<and> URL_Path req = slash # Join lits"
  then have lits: "list_all literal lits" "lits \<noteq> []" and name: "segment name"
    and trie: "dynamicRoutes r m = None" and static: "staticRoutes r (m @ '' '' @ Join lits) = None"
    and meth: "Method req = m" and url: "URL_Path req = slash # Join lits"
    by simp_all
  let ?parts = "lits @ [CHR '':'' # name]"
  have segs: "list_all segment ?parts" "list_all segment lits"
    using lits name by (simp_all add: list_all_segment_literal segment_colon)
  have tp: "Trim (slash # Join ?parts) = Join ?parts" and tl: "Trim (slash # Join lits) = Join lits"
    using segs lits by (simp_all add: Trim_slash_Join)
  have sp: "Split (Join ?parts) = ?parts" and sl: "Split (Join lits) = lits"
    using segs lits by (simp_all add: Split_Join_segments)
  have dyn: "Contains (Trim (slash # Join ?parts)) CHR '':'' \<or> Contains (Trim (slash # Join ?parts)) CHR ''*''"
    unfolding tp by (simp add: Contains_Join slash_def)
  define t where "t = insertLoop (newNode False False []) ?parts h"
  define r' where "r' = r\<lparr>dynamicRoutes := (dynamicRoutes r)(m \<mapsto> t)\<rparr>"
  have add: "Router_AddRoute r m (slash # Join ?parts) h = Inr r'"
    unfolding Router_AddRoute_dynamic [OF dyn] tp sp by (simp add: trie r'_def t_def)
  have s: "staticRoutes r' (Method req @ '' '' @ Trim (URL_Path req)) = None"
    unfolding meth url tl using static by (simp add: r'_def)
  have "searchLoop t lits Map.empty = (None, Some Map.empty)"
    unfolding t_def by (rule search_intermediate [OF _ _ lits(1)]) (simp_all add: newNode_def)
  then have d: "case dynamicRoutes r' (Method req) of
            None \<Rightarrow> True
          | Some root \<Rightarrow> fst (searchDynamicRoute root (Trim (URL_Path req))) = None"
    unfolding meth url tl by (simp add: r'_def searchDynamicRoute_def sl)
  have "ServeHTTP r' w req = call (notFound r') w req"
    using s d by (rule ServeHTTP_miss)
  with add show "\<exists>r'. Router_AddRoute r m (slash # Join ?parts) h = Inr r'
             \<and> ServeHTTP r' w req = call (notFound r') w req"
    by blast
next
  show "notFound (NewRouter nf) = Some nf" by (simp add: NewRouter_def)
next
  show "notFound (Router_Use r mw) = notFound r" by (rule Router_Use_notFound)
next
  assume "Router_AddRoute r m0 p0 h0 = Inr r0"
  then show "notFound r0 = notFound r" by (rule Router_AddRoute_notFound)
qed

text \<open>
  \<^verbatim>\<open>GET /users/:id\<close> registered behind a middleware: \<^verbatim>\<open>GET /users\<close> ends on the node of
  \<^verbatim>\<open>users\<close>, which has no handler, and \<^verbatim>\<open>POST /users/42\<close> finds no trie. Both get the
  fallback, without the middleware.
\<close>

theorem not_found_fallback_witness:
  "\<exists>r'. Router_AddRoute (Router_Use (NewRouter (say ''404'')) (around (\<lambda>w. w @ [''in'']) (\<lambda>w. w @ [''out''])))
           ''GET'' ''/users/:id'' (Some (say ''h'')) = Inr r'
     \<and> notFound r' = Some (say ''404'')
     \<and> ServeHTTP r' [] \<lparr>Method = ''GET'', URL_Path = ''/users'', Context = Map.empty\<rparr> = Inr [''404'']
     \<and> ServeHTTP r' [] \<lparr>Method = ''POST'', URL_Path = ''/users/42'', Context = Map.empty\<rparr> = Inr [''404'']
     \<and> fst (searchLoop (Node Map.empty None False False [] :: string list node) [] Map.empty) = None"
proof -
  let ?base = "NewRouter (say ''404'')"
  let ?mw = "around (\<lambda>w. w @ [''in'']) (\<lambda>w. w @ [''out''])"
  let ?r = "Router_Use ?base ?mw"
  let ?req = "\<lparr>Method = ''GET'', URL_Path = ''/users'', Context = Map.empty\<rparr>"
  let ?post = "\<lparr>Method = ''POST'', URL_Path = ''/users/42'', Context = Map.empty\<rparr>"
  let ?n = "Node Map.empty None False False [] :: string list node"
  have hyp: "list_all literal [''users''] \<and> [''users''] \<noteq> [] \<and> segment ''id''
        \<and> dynamicRoutes ?r ''GET'' = None \<and> staticRoutes ?r (''GET'' @ '' '' @ Join [''users'']) = None
        \<and> Method ?req = ''GET'' \<and> URL_Path ?req = slash # Join [''users'']"
    by (simp add: literal_def segment_def HasPrefix_def slash_def NewRouter_def Router_Use_def)
  have "\<exists>r'. Router_AddRoute ?r ''GET'' (slash # Join ([''users''] @ [CHR '':'' # ''id'']))
              (Some (say ''h'')) = Inr r'
           \<and> ServeHTTP r' [] ?req = call (notFound r') [] ?req"
    using not_found_fallback [of ?r ?req "[]" ?n Map.empty "[''users'']" "''id''" "''GET''"
        "Some (say ''h'')" "say ''404''" ?mw] hyp
    by blast
  then obtain r' where a: "Router_AddRoute ?r ''GET'' ''/users/:id'' (Some (say ''h'')) = Inr r'"
    and s: "ServeHTTP r' [] ?req = call (notFound r') [] ?req"
    by (auto simp: slash_def)
  have n0: "notFound ?base = Some (say ''404'')"
    using not_found_fallback [where nf = "say ''404''" and r = ?base] by blast
  have n1: "notFound ?r = notFound ?base"
    using not_found_fallback [where r = ?base and mw = ?mw] by blast
  have n2: "notFound r' = notFound ?r"
    using not_found_fallback [where r = ?r and ?r0.0 = r' and ?m0.0 = "''GET''"
        and ?p0.0 = "''/users/:id''" and ?h0.0 = "Some (say ''h'')"] a by blast
  have nf: "notFound r' = Some (say ''404'')"
    by (simp only: n0 n1 n2)
  have c1: "ServeHTTP r' [] ?req = Inr [''404'']"
    using s nf by (simp add: call_def say_def)
  have dyn: "Contains (Trim ''/users/:id'') CHR '':''"
    by (simp add: Contains_def Trim_def TrimLeft_def TrimRight_def slash_def)
  have r': "staticRoutes r' = Map.empty" "dynamicRoutes r' ''POST'' = None"
    using a by (auto simp: Router_AddRoute_dynamic dyn Router_Use_def NewRouter_def)
  have "ServeHTTP r' [] ?post = call (notFound r') [] ?post"
    using not_found_fallback [where r = r' and req = ?post and w = "[]", THEN conjunct1] r'
    by simp
  then have c2: "ServeHTTP r' [] ?post = Inr [''404'']"
    using nf by (simp add: call_def say_def)
  have c3: "fst (searchLoop ?n [] Map.empty) = None"
    using not_found_fallback [where n = ?n and ps = Map.empty] by simp
  show ?thesis using a nf c1 c2 c3 by blast
qed

subsection \<open>C8: the three spellings of a path\<close>

text \<open>
  C8. The spellings \<^verbatim>\<open>/q\<close>, \<^verbatim>\<open>q\<close> and \<^verbatim>\<open>/q/\<close> of a path trim to the same string, so
  registering a route under one of them gives the same router as under another, and a
  dispatch of one selects what a dispatch of another selects; \<^verbatim>\<open>ServeHTTP\<close> runs what
  \<open>selectRoute\<close> selects.
\<close>

theorem path_normalization:
  "Trim (''/'' @ q) = Trim q \<and> Trim (q @ ''/'') = Trim q \<and> Trim (''/'' @ q @ ''/'') = Trim q
   \<and> Router_AddRoute r m (''/'' @ q) h = Router_AddRoute r m q h
   \<and> Router_AddRoute r m (''/'' @ q @ ''/'') h = Router_AddRoute r m q h
   \<and> selectRoute r m (''/'' @ q) = selectRoute r m q
   \<and> selectRoute r m (''/'' @ q @ ''/'') = selectRoute r m q
   \<and> ServeHTTP r w req =
       (case selectRoute r (Method req) (URL_Path req) of
          StaticHit s \<Rightarrow> serveWithMiddleware r s w req
        | DynamicHit d ps \<Rightarrow>
            serveWithMiddleware r d w (req\<lparr>Context := (Context req)(''params'' \<mapsto> ps)\<rparr>)
        | Miss \<Rightarrow> call (notFound r) w req)"
proof -
  have "ServeHTTP r w req =
       (case selectRoute r (Method req) (URL_Path req) of
          StaticHit s \<Rightarrow> serveWithMiddleware r s w req
        | DynamicHit d ps \<Rightarrow>
            serveWithMiddleware r d w (req\<lparr>Context := (Context req)(''params'' \<mapsto> ps)\<rparr>)
        | Miss \<Rightarrow> call (notFound r) w req)"
    by (simp add: ServeHTTP_selectRoute WithValue_def split: selection.splits)
  moreover have "Router_AddRoute r m (''/'' @ q) h = Router_AddRoute r m q h"
    by (rule Router_AddRoute_Trim) (rule Trim_spellings)
  moreover have "Router_AddRoute r m (''/'' @ q @ ''/'') h = Router_AddRoute r m q h"
    by (rule Router_AddRoute_Trim) (rule Trim_spellings)
  moreover have "selectRoute r m (''/'' @ q) = selectRoute r m q"
    by (rule selectRoute_Trim) (rule Trim_spellings)
  moreover have "selectRoute r m (''/'' @ q @ ''/'') = selectRoute r m q"
    by (rule selectRoute_Trim) (rule Trim_spellings)
  ultimately show ?thesis
    using Trim_spellings [of q] by blast
qed

subsection \<open>C9: registering a route twice\<close>

text \<open>
  C9. Registering a method and path a second time returns a router, as the first time
  did, and that router is the one registering the second handler alone gives: the first
  handler is gone. For a static route a request for the path invokes the second handler;
  for a route with one named parameter (as in C3) a request that matches invokes the
  second handler with the parameter bound.
\<close>

theorem duplicate_registration_overwrites:
  "(\<exists>r1 r2. Router_AddRoute r m p h1 = Inr r1 \<and> Router_AddRoute r1 m p h2 = Inr r2
       \<and> Router_AddRoute r m p h2 = Inr r2)
   \<and> (\<not> Contains (Trim p) CHR '':'' \<and> \<not> Contains (Trim p) CHR ''*''
        \<and> Method req = m \<and> URL_Path req = p
      \<longrightarrow> (\<exists>r1 r2. Router_AddRoute r m p h1 = Inr r1 \<and> Router_AddRoute r1 m p h2 = Inr r2
             \<and> ServeHTTP r2 (w :: 'w) req = serveWithMiddleware r2 h2 w req))
   \<and> (list_all literal lits1 \<and> list_all literal lits2 \<and> segment name
        \<and> segment v \<and> v \<noteq> '':param''
        \<and> dynamicRoutes r m = None
        \<and> staticRoutes r (m @ '' '' @ Join (lits1 @ v # lits2)) = None
        \<and> Method req = m \<and> URL_Path req = slash # Join (lits1 @ v # lits2)
      \<longrightarrow> (\<exists>r1 r2.
             Router_AddRoute r m (slash # Join (lits1 @ (CHR '':'' # name) # lits2)) h1 = Inr r1
             \<and> Router_AddRoute r1 m (slash # Join (lits1 @ (CHR '':'' # name) # lits2)) (Some f2) = Inr r2
             \<and> ServeHTTP r2 w req =
                 serveWithMiddleware r2 (Some f2) w
                   (req\<lparr>Context := (Context req)(''params'' \<mapsto> Some [name \<mapsto> v])\<rparr>)))"
proof (intro conjI impI)
  show "\<exists>r1 r2. Router_AddRoute r m p h1 = Inr r1 \<and> Router_AddRoute r1 m p h2 = Inr r2
       \<and> Router_AddRoute r m p h2 = Inr r2"
    by (rule Router_AddRoute_twice)
next
  assume a: "\<not> Contains (Trim p) CHR '':'' \<and> \<not> Contains (Trim p) CHR ''*''
        \<and> Method req = m \<and> URL_Path req = p"
  then have st: "\<not> Contains (Trim p) CHR '':''" "\<not> Contains (Trim p) CHR ''*''" by simp_all
  obtain r1 r2 where r1: "Router_AddRoute r m p h1 = Inr r1" and r2: "Router_AddRoute r1 m p h2 = Inr r2"
    using Router_AddRoute_twice by blast
  have "staticRoutes r2 (m @ '' '' @ Trim p) = Some h2"
    using r2 by (auto simp: Router_AddRoute_static [OF st])
  then have "staticRoutes r2 (Method req @ '' '' @ Trim (URL_Path req)) = Some h2"
    using a by simp
  then have "ServeHTTP r2 w req = serveWithMiddleware r2 h2 w req"
    by (rule ServeHTTP_static_hit)
  with r1 r2 show "\<exists>r1 r2. Router_AddRoute r m p h1 = Inr r1 \<and> Router_AddRoute r1 m p h2 = Inr r2
             \<and> ServeHTTP r2 w req = serveWithMiddleware r2 h2 w req"
    by blast
next
  let ?path = "slash # Join (lits1 @ (CHR '':'' # name) # lits2)"
  assume a: "list_all literal lits1 \<and> list_all literal lits2 \<and> segment name
        \<and> segment v \<and> v \<noteq> '':param''
        \<and> dynamicRoutes r m = None
        \<and> staticRoutes r (m @ '' '' @ Join (lits1 @ v # lits2)) = None
        \<and> Method req = m \<and> URL_Path req = slash # Join (lits1 @ v # lits2)"
  then have lits: "list_all literal lits1" "list_all literal lits2" and name: "segment name"
    and v: "segment v" "v \<noteq> '':param''" and trie: "dynamicRoutes r m = None"
    and static: "staticRoutes r (m @ '' '' @ Join (lits1 @ v # lits2)) = None"
    and req: "Method req = m" "URL_Path req = slash # Join (lits1 @ v # lits2)"
    by simp_all
  obtain r1 r2 where r1: "Router_AddRoute r m ?path h1 = Inr r1"
    and r2: "Router_AddRoute r1 m ?path (Some f2) = Inr r2"
    and r2': "Router_AddRoute r m ?path (Some f2) = Inr r2"
    using Router_AddRoute_twice by blast
  have "r2 = r\<lparr>dynamicRoutes := (dynamicRoutes r)(m \<mapsto>
            insertLoop (newNode False False []) (lits1 @ (CHR '':'' # name) # lits2) (Some f2))\<rparr>"
    using r2' unfolding single_param_add [OF lits name] by (simp add: trie)
  with lits name v static req have "ServeHTTP r2 w req =
                 serveWithMiddleware r2 (Some f2) w
                   (req\<lparr>Context := (Context req)(''params'' \<mapsto> Some [name \<mapsto> v])\<rparr>)"
    by (rule single_param_dispatch)
  with r1 r2 show "\<exists>r1 r2.
             Router_AddRoute r m ?path h1 = Inr r1
             \<and> Router_AddRoute r1 m ?path (Some f2) = Inr r2
             \<and> ServeHTTP r2 w req =
                 serveWithMiddleware r2 (Some f2) w
                   (req\<lparr>Context := (Context req)(''params'' \<mapsto> Some [name \<mapsto> v])\<rparr>)"
    by blast
qed

text \<open>
  A static and a dynamic route, each registered twice.
\<close>

theorem duplicate_registration_overwrites_witness:
  "(\<exists>r1 r2. Router_AddRoute (NewRouter (say ''404'')) ''GET'' ''/health'' (Some (say ''old'')) = Inr r1
       \<and> Router_AddRoute r1 ''GET'' ''/health'' (Some (say ''new'')) = Inr r2
       \<and> ServeHTTP r2 [] \<lparr>Method = ''GET'', URL_Path = ''/health'', Context = Map.empty\<rparr> = Inr [''new''])
   \<and> (\<exists>r1 r2. Router_AddRoute (NewRouter (say ''404'')) ''GET'' ''/users/:id'' (Some (say ''old'')) = Inr r1
       \<and> Router_AddRoute r1 ''GET'' ''/users/:id'' (Some (show_param ''id'')) = Inr r2
       \<and> ServeHTTP r2 [] \<lparr>Method = ''GET'', URL_Path = ''/users/42'', Context = Map.empty\<rparr> = Inr [''id=42''])"
proof -
  let ?base = "NewRouter (say ''404'') :: string list Router"
  let ?req1 = "\<lparr>Method = ''GET'', URL_Path = ''/health'', Context = Map.empty\<rparr>"
  let ?req2 = "\<lparr>Method = ''GET'', URL_Path = ''/users/42'', Context = Map.empty\<rparr>"
  have h1: "\<not> Contains (Trim ''/health'') CHR '':'' \<and> \<not> Contains (Trim ''/health'') CHR ''*''
        \<and> Method ?req1 = ''GET'' \<and> URL_Path ?req1 = ''/health''"
    by (simp add: Contains_def Trim_def TrimLeft_def TrimRight_def slash_def)
  obtain r1 r2 where a1: "Router_AddRoute ?base ''GET'' ''/health'' (Some (say ''old'')) = Inr r1"
    and a2: "Router_AddRoute r1 ''GET'' ''/health'' (Some (say ''new'')) = Inr r2"
    and s: "ServeHTTP r2 [] ?req1 = serveWithMiddleware r2 (Some (say ''new'')) [] ?req1"
    using duplicate_registration_overwrites [where r = ?base and m = "''GET''" and p = "''/health''"
        and ?h1.0 = "Some (say ''old'')" and ?h2.0 = "Some (say ''new'')" and req = ?req1 and w = "[]",
        THEN conjunct2, THEN conjunct1] h1
    by blast
  have "middleware r2 = []"
    using Router_AddRoute_middleware [OF a2] Router_AddRoute_middleware [OF a1]
    by (simp add: NewRouter_def)
  then have c1: "ServeHTTP r2 [] ?req1 = Inr [''new'']"
    using s by (simp add: serveWithMiddleware_foldr call_def say_def)
  have h2: "list_all literal [''users''] \<and> list_all literal [] \<and> segment ''id''
        \<and> segment ''42'' \<and> ''42'' \<noteq> '':param''
        \<and> dynamicRoutes ?base ''GET'' = None
        \<and> staticRoutes ?base (''GET'' @ '' '' @ Join ([''users''] @ ''42'' # [])) = None
        \<and> Method ?req2 = ''GET'' \<and> URL_Path ?req2 = slash # Join ([''users''] @ ''42'' # [])"
    by (simp add: literal_def segment_def HasPrefix_def slash_def NewRouter_def)
  have "\<exists>r1 r2.
             Router_AddRoute ?base ''GET'' (slash # Join ([''users''] @ (CHR '':'' # ''id'') # [])) (Some (say ''old'')) = Inr r1
             \<and> Router_AddRoute r1 ''GET'' (slash # Join ([''users''] @ (CHR '':'' # ''id'') # [])) (Some (show_param ''id'')) = Inr r2
             \<and> ServeHTTP r2 [] ?req2 =
                 serveWithMiddleware r2 (Some (show_param ''id'')) []
                   (?req2\<lparr>Context := (Context ?req2)(''params'' \<mapsto> Some [''id'' \<mapsto> ''42''])\<rparr>)"
    using duplicate_registration_overwrites [where r = ?base and m = "''GET''"
        and ?h1.0 = "Some (say ''old'')" and ?f2.0 = "show_param ''id''" and req = ?req2 and w = "[]"
        and ?lits1.0 = "[''users'']" and ?lits2.0 = "[]" and name = "''id''" and v = "''42''",
        THEN conjunct2, THEN conjunct2] h2
    by blast
  then obtain q1 q2 where b1: "Router_AddRoute ?base ''GET'' ''/users/:id'' (Some (say ''old'')) = Inr q1"
    and b2: "Router_AddRoute q1 ''GET'' ''/users/:id'' (Some (show_param ''id'')) = Inr q2"
    and t: "ServeHTTP q2 [] ?req2 =
                 serveWithMiddleware q2 (Some (show_param ''id'')) []
                   (?req2\<lparr>Context := (Context ?req2)(''params'' \<mapsto> Some [''id'' \<mapsto> ''42''])\<rparr>)"
    by (auto simp: slash_def)
  have "middleware q2 = []"
    using Router_AddRoute_middleware [OF b2] Router_AddRoute_middleware [OF b1]
    by (simp add: NewRouter_def)
  then have c2: "ServeHTTP q2 [] ?req2 = Inr [''id=42'']"
    using t by (simp add: serveWithMiddleware_foldr call_def show_param_def)
  show ?thesis using a1 a2 c1 b1 b2 c2 by blast
qed

subsection \<open>C10: the name of a parameter node\<close>

text \<open>
  C10. After \<^verbatim>\<open>/lits/:x\<close> and then \<^verbatim>\<open>/lits/:y\<close> are registered for one method, on a router
  with no trie for it, the parameter node below \<open>lits\<close> holds the second handler and the
  name \<open>x\<close>; a request for \<^verbatim>\<open>/lits/v\<close> invokes the second handler with \<open>v\<close> bound under
  \<open>x\<close>, and so under \<open>y\<close> only when the names are equal.
\<close>

theorem parameter_name_first_registration:
  assumes lits: "list_all literal lits"
    and names: "segment x" "segment y"
    and v: "segment v" "v \<noteq> '':param''"
    and trie: "dynamicRoutes r m = None"
    and static: "staticRoutes r (m @ '' '' @ Join (lits @ [v])) = None"
    and req: "Method req = m" "URL_Path req = slash # Join (lits @ [v])"
  shows "\<exists>r1 r2 root pn.
           Router_AddRoute r m (slash # Join (lits @ [CHR '':'' # x])) h1 = Inr r1
         \<and> Router_AddRoute r1 m (slash # Join (lits @ [CHR '':'' # y])) (Some f2) = Inr r2
         \<and> dynamicRoutes r2 m = Some root
         \<and> children (descend root lits) '':param'' = Some pn
         \<and> handler pn = Some f2 \<and> paramName pn = x
         \<and> ServeHTTP r2 (w :: 'w) req =
             serveWithMiddleware r2 (Some f2) w
               (req\<lparr>Context := (Context req)(''params'' \<mapsto> Some [x \<mapsto> v])\<rparr>)"
proof -
  let ?px = "lits @ [CHR '':'' # x]" and ?py = "lits @ [CHR '':'' # y]"
  define t1 where "t1 = insertLoop (newNode False False []) ?px h1"
  define r1 where "r1 = r\<lparr>dynamicRoutes := (dynamicRoutes r)(m \<mapsto> t1)\<rparr>"
  define t2 where "t2 = insertLoop t1 ?py (Some f2)"
  define r2 where "r2 = r1\<lparr>dynamicRoutes := (dynamicRoutes r1)(m \<mapsto> t2)\<rparr>"
  define pn :: "'w node" where "pn = Node Map.empty (Some f2) True False x"
  have nil: "list_all literal ([] :: string list)" by simp
  have a1: "Router_AddRoute r m (slash # Join ?px) h1 = Inr r1"
    unfolding single_param_add [OF lits nil names(1)] r1_def t1_def by (simp add: trie)
  have a2: "Router_AddRoute r1 m (slash # Join ?py) (Some f2) = Inr r2"
    unfolding single_param_add [OF lits nil names(2)] r2_def t2_def by (simp add: r1_def)
  have d: "dynamicRoutes r2 m = Some t2" by (simp add: r2_def)
  have fresh: "children (descend (newNode False False [] :: 'w node) lits) = Map.empty"
    by (rule children_descend_fresh) (simp add: newNode_def)
  have node: "descend t2 lits =
      insertLoop (insertLoop (descend (newNode False False []) lits) [CHR '':'' # x] h1)
        [CHR '':'' # y] (Some f2)"
    unfolding t2_def t1_def by (simp only: descend_insert_literals [OF lits])
  have c: "children (descend t2 lits) '':param'' = Some pn"
    unfolding node pn_def by (rule insert_param_twice [OF fresh])
  have cv: "children (descend t2 lits) v = None"
    unfolding node using fresh v(2)
    by (simp add: insertLoop_param [OF HasPrefix_colon(1)] del: insertLoop.simps)
  have x: "paramName pn \<noteq> []" using names(1) by (simp add: pn_def segment_def)
  note p = single_param_paths [OF lits nil v(1)]
  have s: "staticRoutes r2 (Method req @ '' '' @ Trim (URL_Path req)) = None"
    unfolding req p using static by (simp add: r2_def r1_def)
  have "searchLoop t2 (lits @ [v]) Map.empty =
      searchLoop (insertLoop (insertLoop (descend (newNode False False []) lits) [CHR '':'' # x] h1)
        [CHR '':'' # y] (Some f2)) [v] Map.empty"
    unfolding t2_def t1_def by (rule search_insert2_literals [OF lits])
  also have "\<dots> = searchLoop (descend t2 lits) [v] Map.empty"
    by (simp only: node)
  also have "\<dots> = (handler pn, Some [paramName pn \<mapsto> v])"
    by (rule search_param_node [OF cv c x])
  finally have f: "searchLoop t2 (Split (Trim (URL_Path req))) Map.empty = (Some f2, Some [x \<mapsto> v])"
    unfolding req p by (simp add: pn_def)
  have "ServeHTTP r2 w req = serveWithMiddleware r2 (Some f2) w (WithValue req ''params'' (Some [x \<mapsto> v]))"
    using s d [folded req(1)] f by (rule ServeHTTP_dynamic_hit)
  then have serve: "ServeHTTP r2 w req =
             serveWithMiddleware r2 (Some f2) w
               (req\<lparr>Context := (Context req)(''params'' \<mapsto> Some [x \<mapsto> v])\<rparr>)"
    by (simp only: WithValue_def)
  have "handler pn = Some f2" "paramName pn = x" by (simp_all add: pn_def)
  with a1 a2 d c serve show ?thesis by blast
qed

text \<open>
  \<^verbatim>\<open>GET /a/:x\<close>, then \<^verbatim>\<open>GET /a/:y\<close>, requested as \<^verbatim>\<open>GET /a/v\<close>: a handler that reads \<open>x\<close>
  finds \<open>v\<close>, one that reads \<open>y\<close> finds nothing.
\<close>

theorem parameter_name_first_registration_witness:
  "(\<exists>r1 r2. Router_AddRoute (NewRouter (say ''404'')) ''GET'' ''/a/:x'' (Some (say ''h1'')) = Inr r1
       \<and> Router_AddRoute r1 ''GET'' ''/a/:y'' (Some (show_param ''x'')) = Inr r2
       \<and> ServeHTTP r2 [] \<lparr>Method = ''GET'', URL_Path = ''/a/v'', Context = Map.empty\<rparr> = Inr [''x=v''])
   \<and> (\<exists>r1 r2. Router_AddRoute (NewRouter (say ''404'')) ''GET'' ''/a/:x'' (Some (say ''h1'')) = Inr r1
       \<and> Router_AddRoute r1 ''GET'' ''/a/:y'' (Some (show_param ''y'')) = Inr r2
       \<and> ServeHTTP r2 [] \<lparr>Method = ''GET'', URL_Path = ''/a/v'', Context = Map.empty\<rparr> = Inr [''y unbound''])"
proof -
  let ?base = "NewRouter (say ''404'') :: string list Router"
  let ?req = "\<lparr>Method = ''GET'', URL_Path = ''/a/v'', Context = Map.empty\<rparr>"
  have run: "\<exists>r1 r2. Router_AddRoute ?base ''GET'' ''/a/:x'' (Some (say ''h1'')) = Inr r1
       \<and> Router_AddRoute r1 ''GET'' ''/a/:y'' (Some f) = Inr r2
       \<and> middleware r2 = []
       \<and> ServeHTTP r2 [] ?req =
             serveWithMiddleware r2 (Some f) []
               (?req\<lparr>Context := (Context ?req)(''params'' \<mapsto> Some [''x'' \<mapsto> ''v''])\<rparr>)" for f
  proof -
    have "\<exists>r1 r2 root pn.
           Router_AddRoute ?base ''GET'' (slash # Join ([''a''] @ [CHR '':'' # ''x''])) (Some (say ''h1'')) = Inr r1
         \<and> Router_AddRoute r1 ''GET'' (slash # Join ([''a''] @ [CHR '':'' # ''y''])) (Some f) = Inr r2
         \<and> dynamicRoutes r2 ''GET'' = Some root
         \<and> children (descend root [''a'']) '':param'' = Some pn
         \<and> handler pn = Some f \<and> paramName pn = ''x''
         \<and> ServeHTTP r2 [] ?req =
             serveWithMiddleware r2 (Some f) []
               (?req\<lparr>Context := (Context ?req)(''params'' \<mapsto> Some [''x'' \<mapsto> ''v''])\<rparr>)"
      by (rule parameter_name_first_registration)
         (simp_all add: literal_def segment_def HasPrefix_def slash_def NewRouter_def)
    then obtain r1 r2 where a1: "Router_AddRoute ?base ''GET'' ''/a/:x'' (Some (say ''h1'')) = Inr r1"
      and a2: "Router_AddRoute r1 ''GET'' ''/a/:y'' (Some f) = Inr r2"
      and s: "ServeHTTP r2 [] ?req =
             serveWithMiddleware r2 (Some f) []
               (?req\<lparr>Context := (Context ?req)(''params'' \<mapsto> Some [''x'' \<mapsto> ''v''])\<rparr>)"
      by (auto simp: slash_def)
    have "middleware r2 = []"
      using Router_AddRoute_middleware [OF a2] Router_AddRoute_middleware [OF a1]
      by (simp add: NewRouter_def)
    with a1 a2 s show ?thesis by blast
  qed
  obtain r1 r2 where a: "Router_AddRoute ?base ''GET'' ''/a/:x'' (Some (say ''h1'')) = Inr r1"
      "Router_AddRoute r1 ''GET'' ''/a/:y'' (Some (show_param ''x'')) = Inr r2"
    and m: "middleware r2 = []"
    and s: "ServeHTTP r2 [] ?req =
             serveWithMiddleware r2 (Some (show_param ''x'')) []
               (?req\<lparr>Context := (Context ?req)(''params'' \<mapsto> Some [''x'' \<mapsto> ''v''])\<rparr>)"
    using run [of "show_param ''x''"] by blast
  have c1: "ServeHTTP r2 [] ?req = Inr [''x=v'']"
    using s m by (simp add: serveWithMiddleware_foldr call_def show_param_def)
  obtain q1 q2 where b: "Router_AddRoute ?base ''GET'' ''/a/:x'' (Some (say ''h1'')) = Inr q1"
      "Router_AddRoute q1 ''GET'' ''/a/:y'' (Some (show_param ''y'')) = Inr q2"
    and m': "middleware q2 = []"
    and t: "ServeHTTP q2 [] ?req =
             serveWithMiddleware q2 (Some (show_param ''y'')) []
               (?req\<lparr>Context := (Context ?req)(''params'' \<mapsto> Some [''x'' \<mapsto> ''v''])\<rparr>)"
    using run [of "show_param ''y''"] by blast
  have c2: "ServeHTTP q2 [] ?req = Inr [''y unbound'']"
    using t m' by (simp add: serveWithMiddleware_foldr call_def show_param_def)
  show ?thesis using a c1 b c2 by blast
qed

section \<open>Request segments that are keys of the trie\<close>

text \<open>
  Registration files a parameter child under the key \<^verbatim>\<open>":param"\<close> and a wildcard child under
  \<^verbatim>\<open>"*"\<close>, and the search looks a request's segment up among the keys first. So a request
  segment \<^verbatim>\<open>:param\<close> reaches the parameter child and binds nothing, and a request segment
  \<^verbatim>\<open>*\<close> reaches the wildcard child as an ordinary child, below which the search goes on.
  A request for the root has one empty segment, which a parameter takes as its value.
  These runs are the reason for the conditions on \<open>v\<close> in C3, C9 and C10 and on \<open>a\<close> in C6,
  and for the non-empty \<open>lits\<close> in C7.
\<close>

lemmas eval_defs = Router_AddRoute_def insertDynamicRoute_def ServeHTTP_def searchDynamicRoute_def
  serveWithMiddleware_def NewRouter_def Trim_def TrimLeft_def TrimRight_def Contains_def
  HasPrefix_def TrimPrefix_def slash_def newNode_def call_def WithValue_def Let_def

lemma param_key_as_segment:
  "\<exists>r'. Router_AddRoute (NewRouter (say ''404'')) ''GET'' ''/users/:id''
            (Some (show_param ''id'')) = Inr r'
     \<and> ServeHTTP r' [] \<lparr>Method = ''GET'', URL_Path = ''/users/:param'', Context = Map.empty\<rparr>
         = Inr [''id unbound'']"
  by (simp add: eval_defs show_param_def)

lemma wildcard_key_as_segment:
  "\<exists>r'. Router_AddRoute (NewRouter (say ''404'')) ''GET'' ''/files/*'' (Some (say ''h'')) = Inr r'
     \<and> ServeHTTP r' [] \<lparr>Method = ''GET'', URL_Path = ''/files/*'', Context = Map.empty\<rparr>
         = Inr [''h'']
     \<and> ServeHTTP r' [] \<lparr>Method = ''GET'', URL_Path = ''/files/*/x'', Context = Map.empty\<rparr>
         = Inr [''404'']"
  by (simp add: eval_defs say_def)

lemma empty_parameter_value:
  "\<exists>r'. Router_AddRoute (NewRouter (say ''404'')) ''GET'' ''/:id'' (Some (show_param ''id'')) = Inr r'
     \<and> ServeHTTP r' [] \<lparr>Method = ''GET'', URL_Path = ''/'', Context = Map.empty\<rparr>
         = Inr [''id='']"
  by (simp add: eval_defs show_param_def)

end
